theory Spec2Isabelle
  imports Complex_Main "HOL-Library.Sublist" "HOL-Library.Product_Lexorder"
begin

section \<open>Text: characters, lines, stripping\<close>

text \<open>
  A Python string is a sequence of code points. The model reads an Isabelle
  \<^typ>\<open>char\<close> as the code point of the same number, so it covers the code points
  0 to 255; a \<^typ>\<open>string\<close> is the list of the code points of a Python string.
  In that range the decimal digits (\<^verbatim>\<open>\d\<close>) are the ten ASCII digits, and the
  white space of \<^verbatim>\<open>\s\<close> and of \<^verbatim>\<open>str.strip()\<close> is the set below.
  \<^verbatim>\<open>str.splitlines()\<close> splits at line feed, vertical tab, form feed, carriage
  return (a carriage return followed by a line feed is one boundary), the file, group
  and record separators and the next-line character; the final boundary opens no
  empty last line.
\<close>

definition is_digit :: "char \<Rightarrow> bool" where
  "is_digit c = (c \<in> set ''0123456789'')"

definition is_space :: "char \<Rightarrow> bool" where
  "is_space c = (c \<in> {CHR 0x09, CHR 0x0A, CHR 0x0B, CHR 0x0C, CHR 0x0D,
                        CHR 0x1C, CHR 0x1D, CHR 0x1E, CHR 0x1F, CHR 0x20,
                        CHR 0x85, CHR 0xA0})"

definition is_datesep :: "char \<Rightarrow> bool" where
  "is_datesep c = (c \<in> {CHR ''/'', CHR ''.'', CHR ''-''})"

definition not_colon :: "char \<Rightarrow> bool" where
  "not_colon c = (c \<noteq> CHR '':'')"

definition not_newline :: "char \<Rightarrow> bool" where
  "not_newline c = (c \<noteq> CHR 0x0A)"

definition is_linebreak :: "char \<Rightarrow> bool" where
  "is_linebreak c = (c \<in> {CHR 0x0A, CHR 0x0B, CHR 0x0C, CHR 0x0D,
                            CHR 0x1C, CHR 0x1D, CHR 0x1E, CHR 0x85})"

definition strip :: "string \<Rightarrow> string" where
  "strip s = rev (dropWhile is_space (rev (dropWhile is_space s)))"

definition rstrip_nl :: "string \<Rightarrow> string" where
  "rstrip_nl s = rev (dropWhile (\<lambda>c. c = CHR 0x0A) (rev s))"

fun splitlines_from :: "string \<Rightarrow> string \<Rightarrow> string list" where
  "splitlines_from acc [] = (if acc = [] then [] else [acc])"
| "splitlines_from acc [c] =
     (if is_linebreak c then [acc] else [acc @ [c]])"
| "splitlines_from acc (c # d # cs) =
     (if c = CHR 0x0D \<and> d = CHR 0x0A then acc # splitlines_from [] cs
      else if is_linebreak c then acc # splitlines_from [] (d # cs)
      else splitlines_from (acc @ [c]) (d # cs))"

definition splitlines :: "string \<Rightarrow> string list" where
  "splitlines s = splitlines_from [] s"

fun collapse :: "bool \<Rightarrow> string \<Rightarrow> string" where
  "collapse in_ws [] = []"
| "collapse in_ws (c # cs) =
     (if is_space c then (if in_ws then collapse True cs else CHR '' '' # collapse True cs)
      else c # collapse False cs)"

section \<open>Regular expressions with backtracking priority\<close>

text \<open>
  The patterns of the source are matched by Python's backtracking engine: of all the
  ways a pattern can match at the start of a line, \<^verbatim>\<open>re.match\<close> returns the first
  one in priority order (a greedy quantifier tries the longest repetition first, an
  alternation its left branch first). \<open>ms r s g\<close> lists every way for \<open>r\<close> to match
  a prefix of \<open>s\<close>, in that order, each with the rest of the input and the named groups
  captured so far; the head of the list is the match Python reports. Every quantifier
  of the source applies to a single character class, which is what \<open>Rep\<close> holds
  (lower bound, optional upper bound, class). \<open>Eos\<close> is \<^verbatim>\<open>$\<close> without the
  multi-line flag: the end of the string, or just before a final line feed.
\<close>

datatype rx =
    Lit char
  | Cls "char \<Rightarrow> bool"
  | Rep nat "nat option" "char \<Rightarrow> bool"
  | Seq rx rx
  | Alt rx rx
  | Opt rx
  | Grp string rx
  | Eos

type_synonym groups = "(string \<times> string) list"

fun reps :: "(char \<Rightarrow> bool) \<Rightarrow> nat \<Rightarrow> nat option \<Rightarrow> string \<Rightarrow> string list" where
  "reps p lo hi [] = (if lo = 0 then [[]] else [])"
| "reps p lo hi (x # xs) =
     (if hi \<noteq> Some 0 \<and> p x then reps p (lo - 1) (map_option (\<lambda>h. h - 1) hi) xs else [])
     @ (if lo = 0 then [x # xs] else [])"

fun ms :: "rx \<Rightarrow> string \<Rightarrow> groups \<Rightarrow> (string \<times> groups) list" where
  "ms (Lit c) s g = (case s of [] \<Rightarrow> [] | x # xs \<Rightarrow> if x = c then [(xs, g)] else [])"
| "ms (Cls p) s g = (case s of [] \<Rightarrow> [] | x # xs \<Rightarrow> if p x then [(xs, g)] else [])"
| "ms (Rep lo hi p) s g = map (\<lambda>r. (r, g)) (reps p lo hi s)"
| "ms (Seq a b) s g = concat (map (\<lambda>(r, g'). ms b r g') (ms a s g))"
| "ms (Alt a b) s g = ms a s g @ ms b s g"
| "ms (Opt a) s g = ms a s g @ [(s, g)]"
| "ms (Grp n a) s g =
     map (\<lambda>(r, g'). (r, (n, take (length s - length r) s) # g')) (ms a s g)"
| "ms Eos s g = (if s = [] \<or> s = [CHR 0x0A] then [(s, g)] else [])"

definition rx_match :: "rx \<Rightarrow> string \<Rightarrow> groups option" where
  "rx_match r s = (case ms r s [] of [] \<Rightarrow> None | (_, g) # _ \<Rightarrow> Some g)"

definition grp :: "groups \<Rightarrow> string \<Rightarrow> string" where
  "grp g n = (case map_of g n of None \<Rightarrow> [] | Some v \<Rightarrow> v)"

text \<open>
  \<open>grp\<close> reads a named group of a match (every named group of the patterns below
  takes part in every match, so the default is never used).
\<close>

fun seq :: "rx list \<Rightarrow> rx" where
  "seq [] = Rep 0 (Some 0) (\<lambda>_. False)"
| "seq [r] = r"
| "seq (r # rs) = Seq r (seq rs)"

definition str :: "string \<Rightarrow> rx" where
  "str s = seq (map Lit s)"

text \<open>
  The patterns, piece by piece. The date is
  \<^verbatim>\<open>\d{1,2}[\/\.\-]\d{1,2}[\/\.\-]\d{2,4}\<close>, the time is
  \<^verbatim>\<open>\d{1,2}:\d{2}(?::\d{2})?\s*(?:AM|PM|am|pm)?\<close>, and every authored pattern ends in
  \<^verbatim>\<open>(?P<sender>[^:]+):\s*(?P<text>.*)$\<close>.
  The first pattern of each list starts with
  \<^verbatim>\<open>^(?P<date>...),?\s+(?P<time>...)\s+-\s+\<close>
  and the second with
  \<^verbatim>\<open>^\[(?P<date>...)(?:,\s+|\s+)(?P<time>...)\]\<close> followed by \<^verbatim>\<open>\s+\<close>;
  \<^verbatim>\<open>BRACKET_TS_ONLY\<close> is that bracketed head followed by \<^verbatim>\<open>\s*$\<close>.
\<close>

definition date_rx :: rx where
  "date_rx = seq [Rep 1 (Some 2) is_digit, Cls is_datesep, Rep 1 (Some 2) is_digit,
                  Cls is_datesep, Rep 2 (Some 4) is_digit]"

definition time_rx :: rx where
  "time_rx = seq [Rep 1 (Some 2) is_digit, Lit CHR '':'', Rep 2 (Some 2) is_digit,
                  Opt (Seq (Lit CHR '':'') (Rep 2 (Some 2) is_digit)),
                  Rep 0 None is_space,
                  Opt (Alt (str ''AM'') (Alt (str ''PM'') (Alt (str ''am'') (str ''pm''))))]"

definition sender_text_rx :: rx where
  "sender_text_rx = seq [Grp ''sender'' (Rep 1 None not_colon), Lit CHR '':'',
                         Rep 0 None is_space, Grp ''text'' (Rep 0 None not_newline), Eos]"

definition android_head :: rx where
  "android_head = seq [Grp ''date'' date_rx, Opt (Lit CHR '',''), Rep 1 None is_space,
                       Grp ''time'' time_rx, Rep 1 None is_space, Lit CHR ''-'',
                       Rep 1 None is_space]"

definition ios_head :: rx where
  "ios_head = seq [Lit CHR ''['', Grp ''date'' date_rx,
                   Alt (Seq (Lit CHR '','') (Rep 1 None is_space)) (Rep 1 None is_space),
                   Grp ''time'' time_rx, Lit CHR '']'']"

definition PATTERNS :: "rx list" where
  "PATTERNS = [Seq android_head sender_text_rx,
               Seq ios_head (Seq (Rep 1 None is_space) sender_text_rx)]"

definition SYSTEM_PATTERNS :: "rx list" where
  "SYSTEM_PATTERNS =
     [Seq android_head (Seq (Grp ''text'' (Rep 0 None not_newline)) Eos),
      Seq ios_head (Seq (Rep 1 None is_space) (Seq (Grp ''text'' (Rep 0 None not_newline)) Eos))]"

definition BRACKET_TS_ONLY :: rx where
  "BRACKET_TS_ONLY = Seq ios_head (Seq (Rep 0 None is_space) Eos)"

definition SENDER_ONLY :: rx where
  "SENDER_ONLY = sender_text_rx"


section \<open>Timestamps\<close>

text \<open>
  A \<^verbatim>\<open>datetime\<close> without time zone and with no sub-second part, which is all that
  \<^verbatim>\<open>strptime\<close> produces for the formats of the source. Python compares two of them
  field by field (\<open>dt_key\<close>, ordered lexicographically) and subtracts them through the
  proleptic Gregorian day number.
\<close>

record datetime =
  year :: nat
  month :: nat
  day :: nat
  hour :: nat
  minute :: nat
  second :: nat

definition is_leap :: "nat \<Rightarrow> bool" where
  "is_leap y = (y mod 4 = 0 \<and> (y mod 100 \<noteq> 0 \<or> y mod 400 = 0))"

definition days_in_month :: "nat \<Rightarrow> nat \<Rightarrow> nat" where
  "days_in_month y m =
     (if m = 2 then (if is_leap y then 29 else 28)
      else if m \<in> {4, 6, 9, 11} then 30 else 31)"

definition days_before_year :: "nat \<Rightarrow> int" where
  "days_before_year y = (let p = int y - 1 in p * 365 + p div 4 - p div 100 + p div 400)"

definition days_before_month :: "nat \<Rightarrow> nat \<Rightarrow> int" where
  "days_before_month y m = int (sum_list (map (days_in_month y) [1..<m]))"

definition toordinal :: "datetime \<Rightarrow> int" where
  "toordinal d = days_before_year (year d) + days_before_month (year d) (month d) + int (day d)"

definition total_seconds :: "datetime \<Rightarrow> datetime \<Rightarrow> int" where
  "total_seconds a b =
     (toordinal a - toordinal b) * 86400
     + (int (hour a) * 3600 + int (minute a) * 60 + int (second a))
     - (int (hour b) * 3600 + int (minute b) * 60 + int (second b))"

definition dt_key :: "datetime \<Rightarrow> nat \<times> nat \<times> nat \<times> nat \<times> nat \<times> nat" where
  "dt_key d = (year d, month d, day d, hour d, minute d, second d)"

section \<open>The date and time formats\<close>

text \<open>
  \<^verbatim>\<open>datetime.strptime\<close> belongs to the Python library, not to the program, so the
  parser takes it as a parameter \<open>sp\<close>: \<open>sp s fmt\<close> is the parsed timestamp, or None
  where the library raises ValueError. \<open>strptime\<close> below is a model of the library
  function for the directives that \<^verbatim>\<open>DT_FORMATS\<close> uses (in the C locale), used to
  run the parser on concrete inputs: the format becomes a regular expression, the
  whole input must be consumed by its first match, and the fields must form a valid
  date and time.
\<close>

definition one_of :: "string \<Rightarrow> char \<Rightarrow> bool" where
  "one_of cs c = (c \<in> set cs)"

fun alts :: "rx list \<Rightarrow> rx" where
  "alts [] = Cls (\<lambda>_. False)"
| "alts [r] = r"
| "alts (r # rs) = Alt r (alts rs)"

definition directive_rx :: "char \<Rightarrow> rx option" where
  "directive_rx c =
    (if c = CHR ''d'' then Some (Grp ''d'' (alts
        [Seq (Lit CHR ''3'') (Cls (one_of ''01'')), Seq (Cls (one_of ''12'')) (Cls is_digit),
         Seq (Lit CHR ''0'') (Cls (one_of ''123456789'')), Cls (one_of ''123456789''),
         Seq (Lit CHR '' '') (Cls (one_of ''123456789''))]))
     else if c = CHR ''m'' then Some (Grp ''m'' (alts
        [Seq (Lit CHR ''1'') (Cls (one_of ''012'')),
         Seq (Lit CHR ''0'') (Cls (one_of ''123456789'')), Cls (one_of ''123456789'')]))
     else if c = CHR ''y'' then Some (Grp ''y'' (Rep 2 (Some 2) is_digit))
     else if c = CHR ''Y'' then Some (Grp ''Y'' (Rep 4 (Some 4) is_digit))
     else if c = CHR ''H'' then Some (Grp ''H'' (alts
        [Seq (Lit CHR ''2'') (Cls (one_of ''0123'')), Seq (Cls (one_of ''01'')) (Cls is_digit),
         Cls is_digit]))
     else if c = CHR ''I'' then Some (Grp ''I'' (alts
        [Seq (Lit CHR ''1'') (Cls (one_of ''012'')),
         Seq (Lit CHR ''0'') (Cls (one_of ''123456789'')), Cls (one_of ''123456789'')]))
     else if c = CHR ''M'' then Some (Grp ''M'' (alts
        [Seq (Cls (one_of ''012345'')) (Cls is_digit), Cls is_digit]))
     else if c = CHR ''S'' then Some (Grp ''S'' (alts
        [Seq (Lit CHR ''6'') (Cls (one_of ''01'')), Seq (Cls (one_of ''012345'')) (Cls is_digit),
         Cls is_digit]))
     else if c = CHR ''p'' then Some (Grp ''p'' (alts
        [Seq (Cls (one_of ''aA'')) (Cls (one_of ''mM'')),
         Seq (Cls (one_of ''pP'')) (Cls (one_of ''mM''))]))
     else None)"

fun format_rx :: "bool \<Rightarrow> string \<Rightarrow> rx list option" where
  "format_rx in_ws [] = Some []"
| "format_rx in_ws [c] =
     (if c = CHR ''%'' then None
      else if is_space c then (if in_ws then Some [] else Some [Rep 1 None is_space])
      else Some [Lit c])"
| "format_rx in_ws (c # d # cs) =
     (if c = CHR ''%'' then
        (case (directive_rx d, format_rx False cs) of
           (Some r, Some rs) \<Rightarrow> Some (r # rs) | _ \<Rightarrow> None)
      else if is_space c then
        (case format_rx True (d # cs) of
           Some rs \<Rightarrow> Some (if in_ws then rs else Rep 1 None is_space # rs) | None \<Rightarrow> None)
      else (case format_rx False (d # cs) of Some rs \<Rightarrow> Some (Lit c # rs) | None \<Rightarrow> None))"

definition to_nat :: "string \<Rightarrow> nat" where
  "to_nat s = foldl (\<lambda>n c. if is_digit c then 10 * n + (of_char c - 48) else n) 0 s"

definition lower_ascii :: "char \<Rightarrow> char" where
  "lower_ascii c = (if c \<in> set ''ABCDEFGHIJKLMNOPQRSTUVWXYZ'' then char_of (of_char c + (32::nat)) else c)"

definition convert_fields :: "groups \<Rightarrow> datetime option" where
  "convert_fields g =
     (let has = (\<lambda>n. map_of g n \<noteq> None);
          y = (if has ''y'' then (if to_nat (grp g ''y'') \<le> 68 then 2000 + to_nat (grp g ''y'')
                                  else 1900 + to_nat (grp g ''y''))
               else if has ''Y'' then to_nat (grp g ''Y'') else 1900);
          mo = (if has ''m'' then to_nat (grp g ''m'') else 1);
          d = (if has ''d'' then to_nat (grp g ''d'') else 1);
          ampm = map lower_ascii (grp g ''p'');
          h = (if has ''H'' then to_nat (grp g ''H'')
               else if has ''I'' then
                 (let i = to_nat (grp g ''I'')
                  in if ampm = [] \<or> ampm = ''am'' then (if i = 12 then 0 else i)
                     else if ampm = ''pm'' then (if i \<noteq> 12 then i + 12 else i)
                     else i)
               else 0);
          mi = (if has ''M'' then to_nat (grp g ''M'') else 0);
          s = (if has ''S'' then to_nat (grp g ''S'') else 0)
      in if 1 \<le> y \<and> y \<le> 9999 \<and> 1 \<le> mo \<and> mo \<le> 12 \<and> 1 \<le> d \<and> d \<le> days_in_month y mo
            \<and> h \<le> 23 \<and> mi \<le> 59 \<and> s \<le> 59
         then Some \<lparr>year = y, month = mo, day = d, hour = h, minute = mi, second = s\<rparr>
         else None)"

definition strptime :: "string \<Rightarrow> string \<Rightarrow> datetime option" where
  "strptime data_string fmt =
     (case format_rx False fmt of
        None \<Rightarrow> None
      | Some rs \<Rightarrow>
          (case ms (seq rs) data_string [] of
             [] \<Rightarrow> None
           | (rest, g) # _ \<Rightarrow> if rest \<noteq> [] then None else convert_fields g))"

text \<open>
  \<^verbatim>\<open>
  def try_parse_dt(date_str, time_str):
      s = f"{date_str} {time_str}".strip()
      s = re.sub(r"\s+", " ", s)
      for fmt in DT_FORMATS:
          try:
              return datetime.strptime(s, fmt)
          except ValueError:
              continue
      return None
  \<close>
\<close>

definition DT_FORMATS :: "string list" where
  "DT_FORMATS =
    [''%d/%m/%y %H:%M'', ''%d/%m/%Y %H:%M'', ''%d/%m/%y %H:%M:%S'', ''%d/%m/%Y %H:%M:%S'',
     ''%d.%m.%y %H:%M'', ''%d.%m.%Y %H:%M'', ''%d.%m.%y %H:%M:%S'', ''%d.%m.%Y %H:%M:%S'',
     ''%d-%m-%y %H:%M'', ''%d-%m-%Y %H:%M'', ''%d-%m-%y %H:%M:%S'', ''%d-%m-%Y %H:%M:%S'',
     ''%m/%d/%y %H:%M'', ''%m/%d/%Y %H:%M'', ''%m/%d/%y %H:%M:%S'', ''%m/%d/%Y %H:%M:%S'',
     ''%d/%m/%y %I:%M %p'', ''%d/%m/%Y %I:%M %p'', ''%d/%m/%y %I:%M:%S %p'',
     ''%d/%m/%Y %I:%M:%S %p'',
     ''%m/%d/%y %I:%M %p'', ''%m/%d/%Y %I:%M %p'', ''%m/%d/%y %I:%M:%S %p'',
     ''%m/%d/%Y %I:%M:%S %p'',
     ''%d.%m.%y %I:%M %p'', ''%d.%m.%Y %I:%M %p'', ''%d.%m.%y %I:%M:%S %p'',
     ''%d.%m.%Y %I:%M:%S %p'']"

fun first_parse :: "(string \<Rightarrow> string \<Rightarrow> datetime option) \<Rightarrow> string \<Rightarrow> string list \<Rightarrow> datetime option" where
  "first_parse sp s [] = None"
| "first_parse sp s (fmt # fmts) =
     (case sp s fmt of Some d \<Rightarrow> Some d | None \<Rightarrow> first_parse sp s fmts)"

definition try_parse_dt :: "(string \<Rightarrow> string \<Rightarrow> datetime option) \<Rightarrow> string \<Rightarrow> string \<Rightarrow> datetime option" where
  "try_parse_dt sp date_str time_str =
     first_parse sp (collapse False (strip (date_str @ '' '' @ time_str))) DT_FORMATS"

section \<open>The message assembler\<close>

text \<open>
  A message is the dictionary that \<^verbatim>\<open>parse_chat_text\<close> builds, with its four keys
  (the key \<^verbatim>\<open>text\<close> is the field \<open>msg_text\<close>). The loop of
  \<^verbatim>\<open>parse_chat_text\<close> keeps three variables, the list \<^verbatim>\<open>messages\<close>, the open
  message \<^verbatim>\<open>current\<close> and \<^verbatim>\<open>pending_ts\<close>; \<open>step\<close> is one iteration of the
  loop body on one line, \<open>flush\<close> is
  \<^verbatim>\<open>if current is not None: messages.append(current)\<close>,
  and \<open>parse_chat_text\<close> runs the loop over the lines, appends the open message and
  keeps the messages whose timestamp is not None.
\<close>

record message =
  ts :: "datetime option"
  sender :: "string option"
  msg_text :: string
  is_system :: bool

record pstate =
  messages :: "message list"
  current :: "message option"
  pending_ts :: "datetime option"

definition flush :: "pstate \<Rightarrow> message list" where
  "flush st = (case current st of None \<Rightarrow> messages st | Some c \<Rightarrow> messages st @ [c])"

fun first_match :: "rx list \<Rightarrow> string \<Rightarrow> groups option" where
  "first_match [] line = None"
| "first_match (pat # pats) line =
     (case rx_match pat line of Some g \<Rightarrow> Some g | None \<Rightarrow> first_match pats line)"

definition open_header :: "(string \<Rightarrow> string \<Rightarrow> datetime option) \<Rightarrow> pstate \<Rightarrow> groups \<Rightarrow> bool \<Rightarrow> pstate" where
  "open_header sp st gd sys =
     st\<lparr>messages := flush st,
        current := Some \<lparr>ts = try_parse_dt sp (grp gd ''date'') (grp gd ''time''),
                         sender = (if sys then None else Some (strip (grp gd ''sender''))),
                         msg_text = grp gd ''text'',
                         is_system = sys\<rparr>\<rparr>"

definition step :: "(string \<Rightarrow> string \<Rightarrow> datetime option) \<Rightarrow> pstate \<Rightarrow> string \<Rightarrow> pstate" where
  "step sp st raw_line =
     (let line = rstrip_nl raw_line in
      case pending_ts st of
        Some p \<Rightarrow>
          (case rx_match SENDER_ONLY line of
             Some gd2 \<Rightarrow>
               \<lparr>messages = flush st,
                current = Some \<lparr>ts = Some p, sender = Some (strip (grp gd2 ''sender'')),
                                 msg_text = grp gd2 ''text'', is_system = False\<rparr>,
                pending_ts = None\<rparr>
           | None \<Rightarrow>
               \<lparr>messages = flush st,
                current = Some \<lparr>ts = Some p, sender = None, msg_text = line, is_system = True\<rparr>,
                pending_ts = None\<rparr>)
      | None \<Rightarrow>
          (case rx_match BRACKET_TS_ONLY line of
             Some m_ts \<Rightarrow>
               (case try_parse_dt sp (grp m_ts ''date'') (grp m_ts ''time'') of
                  Some t \<Rightarrow> st\<lparr>pending_ts := Some t\<rparr>
                | None \<Rightarrow> st)
           | None \<Rightarrow>
               (case first_match PATTERNS line of
                  Some gd \<Rightarrow> open_header sp st gd False
                | None \<Rightarrow>
                    (case first_match SYSTEM_PATTERNS line of
                       Some gd \<Rightarrow> open_header sp st gd True
                     | None \<Rightarrow>
                         (case current st of
                            Some c \<Rightarrow> st\<lparr>current := Some (c\<lparr>msg_text := msg_text c @ [CHR 0x0A] @ line\<rparr>)\<rparr>
                          | None \<Rightarrow> st)))))"

definition init_state :: pstate where
  "init_state = \<lparr>messages = [], current = None, pending_ts = None\<rparr>"

definition parse_chat_text :: "(string \<Rightarrow> string \<Rightarrow> datetime option) \<Rightarrow> string \<Rightarrow> message list" where
  "parse_chat_text sp content =
     filter (\<lambda>m. ts m \<noteq> None) (flush (foldl (step sp) init_state (splitlines content)))"



section \<open>Numeric helpers of the statistics engine\<close>

text \<open>
  The latency samples of \<^verbatim>\<open>stats_for_messages\<close> are Python floats holding whole
  numbers of seconds (\<^verbatim>\<open>timedelta.total_seconds()\<close> of timestamps without a
  sub-second part). They are modelled as exact reals: whole seconds, their sums and
  their halves are represented exactly by a double in the range of calendar time.

  \<^verbatim>\<open>
  def median(xs):
      if not xs:
          return None
      xs2 = sorted(xs)
      n = len(xs2)
      mid = n // 2
      if n % 2 == 1:
          return xs2[mid]
      return 0.5 * (xs2[mid - 1] + xs2[mid])
  \<close>
  Both indices are in range whenever the list is not empty, so no read fails.
\<close>

definition median :: "real list \<Rightarrow> real option" where
  "median xs =
     (if xs = [] then None
      else let xs2 = sort xs; n = length xs2; mid = n div 2
           in if n mod 2 = 1 then Some (xs2 ! mid)
              else Some (0.5 * (xs2 ! (mid - 1) + xs2 ! mid)))"

text \<open>
  \<^verbatim>\<open>
  def avg(xs):
      return (sum(xs) / len(xs)) if xs else None
  \<close>
\<close>

definition avg :: "real list \<Rightarrow> real option" where
  "avg xs = (if xs = [] then None else Some (sum_list xs / real (length xs)))"

section \<open>The statistics engine\<close>

text \<open>
  The module constants \<^verbatim>\<open>REACTION_CUTOFF_SEC\<close> (a number of seconds, or None to
  disable the cutoff) and \<^verbatim>\<open>TOP_WORDS\<close> are the configuration of the engine; the
  model passes them in a record, \<open>default_config\<close> being the values of the source.
\<close>

record config =
  REACTION_CUTOFF_SEC :: "int option"
  TOP_WORDS :: nat

definition default_config :: config where
  "default_config = \<lparr>REACTION_CUTOFF_SEC = Some (6 * 3600), TOP_WORDS = 100\<rparr>"

text \<open>
  \<^verbatim>\<open>
  def within_cutoff(dt_sec):
      return True if REACTION_CUTOFF_SEC is None else (dt_sec <= REACTION_CUTOFF_SEC)
  \<close>
\<close>

definition within_cutoff :: "config \<Rightarrow> int \<Rightarrow> bool" where
  "within_cutoff cfg dt_sec =
     (case REACTION_CUTOFF_SEC cfg of None \<Rightarrow> True | Some c \<Rightarrow> dt_sec \<le> c)"

text \<open>
  A \<^verbatim>\<open>Counter\<close> is a dictionary in insertion order: counting an element that is
  already a key adds one to its count in place, a new element is appended with count
  one. \<^verbatim>\<open>most_common(n)\<close> is, as the library documents it, the first \<open>n\<close> items of
  the items sorted by count in descending order, the sort being stable (items of equal
  count stay in insertion order).
\<close>

definition counter_add :: "('a \<times> nat) list \<Rightarrow> 'a \<Rightarrow> ('a \<times> nat) list" where
  "counter_add c k =
     (if k \<in> fst ` set c then map (\<lambda>(k', v). if k' = k then (k', v + 1) else (k', v)) c
      else c @ [(k, 1)])"

definition Counter :: "'a list \<Rightarrow> ('a \<times> nat) list" where
  "Counter xs = foldl counter_add [] xs"

definition most_common :: "nat \<Rightarrow> ('a \<times> nat) list \<Rightarrow> ('a \<times> nat) list" where
  "most_common n c = take n (sort_key (\<lambda>kv. - int (snd kv)) c)"

text \<open>
  Words: \<^verbatim>\<open>WORD_RE = re.compile(r"[a-z...]+", re.IGNORECASE)\<close>, the class holding
  the letters a to z and twelve accented letters (code points E0, E8, E9, EC, F2, F9,
  E4, F6, FC, DF, E7, F1). \<^verbatim>\<open>findall\<close> returns the maximal runs of such
  characters, left to right. \<^verbatim>\<open>str.lower()\<close> on the code points below 256 moves
  A to Z and C0 to DE (D7 apart) up by 32.
\<close>

definition lower_char :: "char \<Rightarrow> char" where
  "lower_char c =
     (let n = (of_char c :: nat)
      in if (65 \<le> n \<and> n \<le> 90) \<or> (192 \<le> n \<and> n \<le> 222 \<and> n \<noteq> 215) then char_of (n + 32) else c)"

definition lower :: "string \<Rightarrow> string" where
  "lower s = map lower_char s"

definition is_word_char :: "char \<Rightarrow> bool" where
  "is_word_char c =
     (let l = lower_char c
      in l \<in> set ''abcdefghijklmnopqrstuvwxyz''
         \<or> l \<in> {CHR 0xE0, CHR 0xE8, CHR 0xE9, CHR 0xEC, CHR 0xF2, CHR 0xF9,
                  CHR 0xE4, CHR 0xF6, CHR 0xFC, CHR 0xDF, CHR 0xE7, CHR 0xF1})"

fun findall_from :: "string \<Rightarrow> string \<Rightarrow> string list" where
  "findall_from acc [] = (if acc = [] then [] else [acc])"
| "findall_from acc (c # cs) =
     (if is_word_char c then findall_from (acc @ [c]) cs
      else (if acc = [] then [] else [acc]) @ findall_from [] cs)"

definition WORD_RE_findall :: "string \<Rightarrow> string list" where
  "WORD_RE_findall s = findall_from [] s"

fun join :: "string \<Rightarrow> string list \<Rightarrow> string" where
  "join sep [] = []"
| "join sep [x] = x"
| "join sep (x # xs) = x @ sep @ join sep xs"

text \<open>
  The result dictionary of \<^verbatim>\<open>stats_for_messages\<close>, key by key.
\<close>

record stats =
  label :: string
  guessed_me :: "string option"
  my_names :: "string set"
  first_ts :: "datetime option"
  last_ts :: "datetime option"
  span_sec :: "real option"
  total_msgs :: nat
  sent :: nat
  received :: nat
  ratio :: "real option"
  top_words :: "(string \<times> nat) list"
  hour_counts :: "nat list"
  me_react_avg :: "real option"
  me_react_med :: "real option"
  me_react_n :: nat
  them_react_avg :: "real option"
  them_react_med :: "real option"
  them_react_n :: nat
  top_senders :: "(string \<times> nat) list"

datatype error = TypeError | AttributeError

text \<open>
  \<^verbatim>\<open>non_system = [m for m in messages if not m["is_system"] and m["sender"]]\<close>:
  the sender is neither None nor the empty string.
\<close>

definition qualifies :: "message \<Rightarrow> bool" where
  "qualifies m = (\<not> is_system m \<and> (case sender m of None \<Rightarrow> False | Some s \<Rightarrow> s \<noteq> []))"

definition non_system_of :: "message list \<Rightarrow> message list" where
  "non_system_of msgs = filter qualifies msgs"

definition the_ts :: "message \<Rightarrow> datetime" where
  "the_ts m = the (ts m)"

definition the_sender :: "message \<Rightarrow> string" where
  "the_sender m = the (sender m)"

text \<open>
  \<^verbatim>\<open>min\<close> and \<^verbatim>\<open>max\<close> of a list of timestamps keep the first of equal elements.
\<close>

definition min_ts :: "datetime list \<Rightarrow> datetime option" where
  "min_ts xs = (case xs of [] \<Rightarrow> None
     | x # r \<Rightarrow> Some (foldl (\<lambda>a b. if dt_key b < dt_key a then b else a) x r))"

definition max_ts :: "datetime list \<Rightarrow> datetime option" where
  "max_ts xs = (case xs of [] \<Rightarrow> None
     | x # r \<Rightarrow> Some (foldl (\<lambda>a b. if dt_key a < dt_key b then b else a) x r))"

text \<open>
  \<^verbatim>\<open>
  for m in non_system:
      hour_counts[m["ts"].hour] += 1
  \<close>
  The hour of a \<^verbatim>\<open>datetime\<close> is below 24, so the index is in range.
\<close>

definition count_hours :: "message list \<Rightarrow> nat list" where
  "count_hours ns =
     foldl (\<lambda>hc m. hc[hour (the_ts m) := hc ! hour (the_ts m) + 1]) (replicate 24 0) ns"

text \<open>
  \<^verbatim>\<open>
  for prev, cur in zip(non_system_sorted, non_system_sorted[1:]):
      dt_sec = (cur["ts"] - prev["ts"]).total_seconds()
      if dt_sec < 0:
          continue
      if not within_cutoff(dt_sec):
          continue
      prev_me = prev["sender"] in my_names
      cur_me = cur["sender"] in my_names
      if (not prev_me) and cur_me:
          me_react.append(dt_sec)
      elif prev_me and (not cur_me):
          them_react.append(dt_sec)
  \<close>
  \<open>react_step\<close> is the loop body on the pair of lists \<open>(me_react, them_react)\<close>.
\<close>

definition react_step ::
  "config \<Rightarrow> string set \<Rightarrow> real list \<times> real list \<Rightarrow> message \<times> message \<Rightarrow> real list \<times> real list" where
  "react_step cfg names acc pc =
     (let prev = fst pc; cur = snd pc; me_react = fst acc; them_react = snd acc;
          dt_sec = total_seconds (the_ts cur) (the_ts prev)
      in if dt_sec < 0 then acc
         else if \<not> within_cutoff cfg dt_sec then acc
         else let prev_me = the_sender prev \<in> names; cur_me = the_sender cur \<in> names
              in if \<not> prev_me \<and> cur_me then (me_react @ [real_of_int dt_sec], them_react)
                 else if prev_me \<and> \<not> cur_me then (me_react, them_react @ [real_of_int dt_sec])
                 else acc)"

definition non_system_sorted_of :: "message list \<Rightarrow> message list" where
  "non_system_sorted_of ns = sort_key (\<lambda>x. dt_key (the_ts x)) ns"

definition reactions :: "config \<Rightarrow> string set \<Rightarrow> message list \<Rightarrow> real list \<times> real list" where
  "reactions cfg names ns =
     (let non_system_sorted = non_system_sorted_of ns
      in foldl (react_step cfg names) ([], []) (zip non_system_sorted (tl non_system_sorted)))"

text \<open>
  The function itself. A message that qualifies but has no timestamp makes the source
  raise: \<^verbatim>\<open>min\<close> compares None with another element when there are two or more
  (TypeError), and with a single such message the read of \<^verbatim>\<open>.hour\<close> fails
  (AttributeError). Otherwise every step succeeds and the dictionary is returned.
\<close>

definition stats_for_messages :: "config \<Rightarrow> message list \<Rightarrow> string set \<Rightarrow> string \<Rightarrow> error + stats" where
  "stats_for_messages cfg msgs my_names0 lbl =
     (let non_system = non_system_of msgs
      in if \<exists>m \<in> set non_system. ts m = None
         then (if 2 \<le> length non_system then Inl TypeError else Inl AttributeError)
         else
          let all_ts = (if non_system \<noteq> [] then map the_ts non_system
                        else map the_ts (filter (\<lambda>m. ts m \<noteq> None) msgs));
              first = min_ts all_ts;
              last = max_ts all_ts;
              span = (case (first, last) of
                        (Some f, Some l) \<Rightarrow> Some (real_of_int (total_seconds l f))
                      | _ \<Rightarrow> None);
              total = length non_system;
              sender_counts = Counter (map the_sender non_system);
              guessed = (if my_names0 = {} \<and> sender_counts \<noteq> []
                         then Some (fst (hd (most_common 1 sender_counts))) else None);
              names = (if my_names0 = {}
                       then (case guessed of Some g \<Rightarrow> {g} | None \<Rightarrow> {})
                       else my_names0);
              snt = length (filter (\<lambda>m. the_sender m \<in> names) non_system);
              rcv = total - snt;
              words = WORD_RE_findall (lower (join '' '' (map msg_text non_system)));
              react = reactions cfg names non_system
          in Inr \<lparr>label = lbl,
                  guessed_me = guessed,
                  my_names = names,
                  first_ts = first,
                  last_ts = last,
                  span_sec = span,
                  total_msgs = total,
                  sent = snt,
                  received = rcv,
                  ratio = (if rcv > 0 then Some (real snt / real rcv) else None),
                  top_words = most_common (TOP_WORDS cfg) (Counter words),
                  hour_counts = count_hours non_system,
                  me_react_avg = avg (fst react),
                  me_react_med = median (fst react),
                  me_react_n = length (fst react),
                  them_react_avg = avg (snd react),
                  them_react_med = median (snd react),
                  them_react_n = length (snd react),
                  top_senders = most_common 10 sender_counts\<rparr>)"

section \<open>Notions used to state the properties\<close>

text \<open>
  A Python \<^verbatim>\<open>datetime\<close> always holds a real calendar date and a time of day; the
  constructor refuses anything else. \<open>valid_dt\<close> is that invariant on the record.
\<close>

definition valid_dt :: "datetime \<Rightarrow> bool" where
  "valid_dt d = (1 \<le> year d \<and> 1 \<le> month d \<and> month d \<le> 12 \<and> 1 \<le> day d
                 \<and> day d \<le> days_in_month (year d) (month d)
                 \<and> hour d < 24 \<and> minute d < 60 \<and> second d < 60)"

text \<open>
  The seconds elapsed between the two messages of a pair, and the adjacent pairs of a
  sequence once it is sorted by timestamp, written with the stable sort of the HOL
  library (a message precedes its successor; messages of equal timestamp keep their
  order).
\<close>

definition elapsed :: "message \<times> message \<Rightarrow> int" where
  "elapsed pc = total_seconds (the_ts (snd pc)) (the_ts (fst pc))"

definition adjacent_pairs :: "message list \<Rightarrow> (message \<times> message) list" where
  "adjacent_pairs ns =
     zip (sort_key (\<lambda>m. dt_key (the_ts m)) ns) (tl (sort_key (\<lambda>m. dt_key (the_ts m)) ns))"

text \<open>
  Sample messages: Alice at 09:00:00, Bob six hours later to the second, Bob one second
  after that, and Carol one minute after Alice.
\<close>

definition msg_alice_0900 :: message where
  "msg_alice_0900 = \<lparr>ts = Some \<lparr>year = 2023, month = 2, day = 1, hour = 9, minute = 0, second = 0\<rparr>,
          sender = Some ''Alice'', msg_text = ''hello'', is_system = False\<rparr>"
definition msg_bob_1500 :: message where
  "msg_bob_1500 = \<lparr>ts = Some \<lparr>year = 2023, month = 2, day = 1, hour = 15, minute = 0, second = 0\<rparr>,
          sender = Some ''Bob'', msg_text = ''hi'', is_system = False\<rparr>"
definition msg_bob_150001 :: message where
  "msg_bob_150001 = \<lparr>ts = Some \<lparr>year = 2023, month = 2, day = 1, hour = 15, minute = 0, second = 1\<rparr>,
          sender = Some ''Bob'', msg_text = ''hi'', is_system = False\<rparr>"

definition msg_carol_0901 :: message where
  "msg_carol_0901 = \<lparr>ts = Some \<lparr>year = 2023, month = 2, day = 1, hour = 9, minute = 1, second = 0\<rparr>,
          sender = Some ''Carol'', msg_text = ''hi'', is_system = False\<rparr>"







text \<open>
  A result with its three time-span fields blanked, the messages of a sequence that are
  not system notices, and a sample system notice.
\<close>

definition strip_span :: "stats \<Rightarrow> stats" where
  "strip_span r = r\<lparr>first_ts := None, last_ts := None, span_sec := None\<rparr>"

definition authored_only :: "message list \<Rightarrow> message list" where
  "authored_only msgs = filter (\<lambda>m. \<not> is_system m) msgs"

definition notice_1000 :: message where
  "notice_1000 =
     \<lparr>ts = Some \<lparr>year = 2023, month = 2, day = 1, hour = 10, minute = 0, second = 0\<rparr>,
      sender = None, msg_text = ''Alice added Bob'', is_system = True\<rparr>"

text \<open>
  The string that \<^verbatim>\<open>try_parse_dt\<close> hands to the library (stripped, white space
  collapsed); whether a template starts with the day or with the month, and whether it
  uses the 12-hour clock; the template obtained by putting the day before the month;
  and the first stage of \<open>strptime\<close>, the named groups of the match of the whole input.
\<close>

definition normalized :: "string \<Rightarrow> string \<Rightarrow> string" where
  "normalized date_str time_str = collapse False (strip (date_str @ '' '' @ time_str))"

definition day_first :: "string \<Rightarrow> bool" where
  "day_first fmt = (take 2 fmt = ''%d'')"

definition month_first :: "string \<Rightarrow> bool" where
  "month_first fmt = (take 2 fmt = ''%m'')"

definition twelve_hour :: "string \<Rightarrow> bool" where
  "twelve_hour fmt = (CHR ''I'' \<in> set fmt)"

definition swap_day_month :: "string \<Rightarrow> string" where
  "swap_day_month fmt = ''%d'' @ take 1 (drop 2 fmt) @ ''%m'' @ drop 5 fmt"

definition found_dict :: "string \<Rightarrow> string \<Rightarrow> groups option" where
  "found_dict data_string fmt =
     (case format_rx False fmt of
        None \<Rightarrow> None
      | Some rs \<Rightarrow>
          (case ms (seq rs) data_string [] of
             [] \<Rightarrow> None
           | (rest, g) # _ \<Rightarrow> if rest \<noteq> [] then None else Some g))"

text \<open>
  The state of the assembler right after a bracket-only line has set the pending
  timestamp at the start of a file, and a sample timestamp.
\<close>

definition pending_state :: "datetime \<Rightarrow> pstate" where
  "pending_state d = \<lparr>messages = [], current = None, pending_ts = Some d\<rparr>"

definition dt_20200415_162056 :: datetime where
  "dt_20200415_162056 = \<lparr>year = 2020, month = 4, day = 15, hour = 16, minute = 20, second = 56\<rparr>"





section \<open>Median\<close>

text \<open>
  C6. The reported median is None for the empty list; for a list of odd size it is the
  middle element of the ascending sort; for a list of even size it is the arithmetic
  mean of the two central elements of the ascending sort, both indices being inside the
  sorted list. In particular the median of 10, 20, 30 is 20 and the median of
  10, 20, 30, 40 is 25.
\<close>

theorem median_correct:
  "median [] = None
   \<and> (\<forall>xs. xs \<noteq> [] \<and> odd (length xs) \<longrightarrow>
         length xs div 2 < length (sort xs)
         \<and> median xs = Some (sort xs ! (length xs div 2)))
   \<and> (\<forall>xs. xs \<noteq> [] \<and> even (length xs) \<longrightarrow>
         length xs div 2 - 1 < length xs div 2
         \<and> length xs div 2 < length (sort xs)
         \<and> median xs = Some ((sort xs ! (length xs div 2 - 1) + sort xs ! (length xs div 2)) / 2))
   \<and> median [10, 20, 30] = Some 20
   \<and> median [10, 20, 30, 40] = Some 25"
proof -
  have e: "median [] = None"
    by (simp add: median_def)
  have o: "length xs div 2 < length (sort xs) \<and> median xs = Some (sort xs ! (length xs div 2))"
    if "xs \<noteq> []" "odd (length xs)" for xs :: "real list"
  proof -
    from that have "0 < length xs" "length xs mod 2 = 1"
      by (simp_all add: odd_iff_mod_2_eq_one)
    then show ?thesis
      by (simp add: median_def Let_def that)
  qed
  have v: "length xs div 2 - 1 < length xs div 2 \<and> length xs div 2 < length (sort xs)
           \<and> median xs = Some ((sort xs ! (length xs div 2 - 1) + sort xs ! (length xs div 2)) / 2)"
    if "xs \<noteq> []" "even (length xs)" for xs :: "real list"
  proof -
    from that have p: "0 < length xs" by simp
    from that have m: "length xs mod 2 = 0" by presburger
    from p m have "2 \<le> length xs" by presburger
    then have "0 < length xs div 2" by simp
    with p m show ?thesis
      by (simp add: median_def Let_def that)
  qed
  have a: "median [10, 20, 30] = Some 20"
    by (simp add: median_def)
  have b: "median [10, 20, 30, 40] = Some 25"
    by (simp add: median_def)
  from e o v a b show ?thesis by blast
qed

theorem median_correct_witness:
  "median [30, 10, 20] = Some 20 \<and> median [40, 10, 30, 20] = Some 25 \<and> median [7] = Some 7"
proof -
  have o: "median [30, 10, 20] = Some (sort [30, 10, 20] ! (length [30, 10, 20 :: real] div 2))"
    using median_correct by simp
  have s: "median [7] = Some (sort [7] ! (length [7 :: real] div 2))"
    using median_correct by simp
  have v: "median [40, 10, 30, 20] =
           Some ((sort [40, 10, 30, 20] ! (length [40, 10, 30, 20 :: real] div 2 - 1)
                  + sort [40, 10, 30, 20] ! (length [40, 10, 30, 20 :: real] div 2)) / 2)"
    using median_correct by simp
  from o s v show ?thesis by simp
qed

section \<open>Resolved timestamps\<close>

lemma non_system_resolved:
  assumes "\<forall>m \<in> set msgs. ts m \<noteq> None"
  shows "\<exists>r. stats_for_messages cfg msgs names lbl = Inr r"
proof -
  have "\<not> (\<exists>m \<in> set (non_system_of msgs). ts m = None)"
    using assms by (auto simp: non_system_of_def)
  then show ?thesis
    unfolding stats_for_messages_def Let_def by (simp only: if_False) blast
qed

text \<open>
  C2. Every message that \<open>parse_chat_text\<close> returns has a timestamp, whatever the
  input text and whatever the library's date parser accepts: a message opened from a
  header whose date and time did not parse is removed before the list is returned.
  The statistics engine, the only consumer of the list, therefore never meets a
  missing timestamp: on the parser's output it returns a result and does not raise.
\<close>

theorem parse_chat_text_resolved:
  "(\<forall>m \<in> set (parse_chat_text sp content). \<exists>t. ts m = Some t)
   \<and> (\<exists>r. stats_for_messages cfg (parse_chat_text sp content) names lbl = Inr r)"
proof -
  have a: "\<forall>m \<in> set (parse_chat_text sp content). ts m \<noteq> None"
    by (simp add: parse_chat_text_def)
  from a non_system_resolved [OF a] show ?thesis by auto
qed

theorem parse_chat_text_resolved_witness:
  "parse_chat_text strptime
          (''99/99/99, 09:00 - Bob: lost'' @ [CHR 0x0A] @ ''01/02/23, 09:00 - Alice: hello'')
       = [\<lparr>ts = Some \<lparr>year = 2023, month = 2, day = 1, hour = 9, minute = 0, second = 0\<rparr>,
            sender = Some ''Alice'', msg_text = ''hello'', is_system = False\<rparr>]
   \<and> (\<exists>t. ts (hd (parse_chat_text strptime
          (''99/99/99, 09:00 - Bob: lost'' @ [CHR 0x0A] @ ''01/02/23, 09:00 - Alice: hello'')))
         = Some t)"
proof -
  have e: "parse_chat_text strptime
          (''99/99/99, 09:00 - Bob: lost'' @ [CHR 0x0A] @ ''01/02/23, 09:00 - Alice: hello'')
       = [\<lparr>ts = Some \<lparr>year = 2023, month = 2, day = 1, hour = 9, minute = 0, second = 0\<rparr>,
            sender = Some ''Alice'', msg_text = ''hello'', is_system = False\<rparr>]"
    by code_simp
  show ?thesis
    using e parse_chat_text_resolved [of strptime
          "''99/99/99, 09:00 - Bob: lost'' @ [CHR 0x0A] @ ''01/02/23, 09:00 - Alice: hello''"]
    by simp
qed

section \<open>Response latency and the cutoff\<close>

lemma div_succ:
  assumes k: "0 < (k::int)"
  shows "(p + 1) div k = p div k + (if (p + 1) mod k = 0 then 1 else 0)"
proof (cases "p mod k = k - 1")
  case True
  have m: "k * (p div k) + p mod k = p" by simp
  have d: "k * (p div k + 1) = k * (p div k) + k" by (simp add: algebra_simps)
  have e: "p + 1 = k * (p div k + 1) + 0"
    using m d True by linarith
  have "(p + 1) div k = p div k + 1"
    by (rule int_div_pos_eq [OF e]) (use k in simp_all)
  moreover have "(p + 1) mod k = 0"
    by (rule int_mod_pos_eq [OF e]) (use k in simp_all)
  ultimately show ?thesis by simp
next
  case False
  have r: "0 \<le> p mod k" "p mod k < k" using k by simp_all
  have m: "k * (p div k) + p mod k = p" by simp
  have e: "p + 1 = k * (p div k) + (p mod k + 1)"
    using m by linarith
  have b: "0 \<le> p mod k + 1" "p mod k + 1 < k" using r False by simp_all
  have "(p + 1) div k = p div k"
    by (rule int_div_pos_eq [OF e b])
  moreover have "(p + 1) mod k = p mod k + 1"
    by (rule int_mod_pos_eq [OF e b])
  ultimately show ?thesis using r by simp
qed

lemma div_year:
  assumes k: "0 < (k::nat)"
  shows "int y div int k = (int y - 1) div int k + (if y mod k = 0 then 1 else 0)"
proof -
  have "int y mod int k = 0 \<longleftrightarrow> y mod k = 0"
    by (simp flip: zmod_int)
  with div_succ [of "int k" "int y - 1"] k show ?thesis by simp
qed

lemma dby_Suc: "days_before_year (Suc y) = days_before_year y + (if is_leap y then 366 else 365)"
proof -
  have a: "int y div 4 = (int y - 1) div 4 + (if y mod 4 = 0 then 1 else 0)"
    using div_year [of 4 y] by simp
  have b: "int y div 100 = (int y - 1) div 100 + (if y mod 100 = 0 then 1 else 0)"
    using div_year [of 100 y] by simp
  have c: "int y div 400 = (int y - 1) div 400 + (if y mod 400 = 0 then 1 else 0)"
    using div_year [of 400 y] by simp
  have i1: "y mod 4 = 0" if "y mod 100 = 0"
  proof -
    from that have "100 dvd y" by (simp add: mod_eq_0_iff_dvd)
    moreover have "(4::nat) dvd 100" by simp
    ultimately have "4 dvd y" by (rule dvd_trans [rotated])
    then show ?thesis by (simp add: mod_eq_0_iff_dvd)
  qed
  have i2: "y mod 100 = 0" if "y mod 400 = 0"
  proof -
    from that have "400 dvd y" by (simp add: mod_eq_0_iff_dvd)
    moreover have "(100::nat) dvd 400" by simp
    ultimately have "100 dvd y" by (rule dvd_trans [rotated])
    then show ?thesis by (simp add: mod_eq_0_iff_dvd)
  qed
  have s: "days_before_year (Suc y) = int y * 365 + int y div 4 - int y div 100 + int y div 400"
    by (simp add: days_before_year_def Let_def)
  have t: "days_before_year y = (int y - 1) * 365 + (int y - 1) div 4 - (int y - 1) div 100 + (int y - 1) div 400"
    by (simp add: days_before_year_def Let_def)
  have u: "(int y - 1) * 365 = int y * 365 - 365" by (simp add: algebra_simps)
  show ?thesis
    unfolding s t u a b c is_leap_def using i1 i2 by auto
qed

lemma dby_step: "days_before_year y + 365 \<le> days_before_year (Suc y)"
  by (simp add: dby_Suc)

lemma dby_step_leap: "is_leap y \<Longrightarrow> days_before_year y + 366 \<le> days_before_year (Suc y)"
  by (simp add: dby_Suc)

lemma dby_mono: "y \<le> y' \<Longrightarrow> days_before_year y \<le> days_before_year y'"
proof (induction y' rule: nat_induct_at_least)
  case base show ?case by simp
next
  case (Suc n)
  with dby_step [of n] show ?case by linarith
qed

lemma dbm_13: "days_before_month y 13 = (if is_leap y then 366 else 365)"
  by (simp add: days_before_month_def days_in_month_def upt_rec)

lemma dbm_Suc: "1 \<le> m \<Longrightarrow> days_before_month y (Suc m) = days_before_month y m + int (days_in_month y m)"
  by (simp add: days_before_month_def)

lemma dbm_mono: "m \<le> m' \<Longrightarrow> days_before_month y m \<le> days_before_month y m'"
proof (induction m' rule: nat_induct_at_least)
  case base show ?case by simp
next
  case (Suc n)
  show ?case
  proof (cases "1 \<le> n")
    case True
    with Suc dbm_Suc [of n y] show ?thesis by linarith
  next
    case False
    then show ?thesis using Suc by (simp add: days_before_month_def)
  qed
qed

lemma dbm_nonneg: "0 \<le> days_before_month y m"
  by (simp add: days_before_month_def)

lemma ord_upper:
  assumes "valid_dt d"
  shows "toordinal d \<le> days_before_year (Suc (year d))"
proof -
  from assms have m: "1 \<le> month d" "month d \<le> 12" and dd: "day d \<le> days_in_month (year d) (month d)"
    by (simp_all add: valid_dt_def)
  have "days_before_month (year d) (month d) + int (day d) \<le> days_before_month (year d) (Suc (month d))"
    using dbm_Suc [OF m(1), of "year d"] dd by linarith
  also have "\<dots> \<le> days_before_month (year d) 13"
    using m by (intro dbm_mono) simp
  finally have "days_before_month (year d) (month d) + int (day d) \<le> (if is_leap (year d) then 366 else 365)"
    by (simp add: dbm_13)
  then show ?thesis
    using dby_step [of "year d"] dby_step_leap [of "year d"]
    by (auto simp: toordinal_def split: if_splits)
qed

lemma lex3_less:
  "((a::nat, b::nat, c::nat) < (a', b', c')) = (a < a' \<or> a = a' \<and> b < b' \<or> a = a' \<and> b = b' \<and> c < c')"
  by (auto simp: less_prod_def)

lemma lex3_le:
  "((a::nat, b::nat, c::nat) \<le> (a', b', c')) = (a < a' \<or> a = a' \<and> b < b' \<or> a = a' \<and> b = b' \<and> c \<le> c')"
  by (auto simp: less_eq_prod_def less_prod_def)

lemma ord_mono:
  assumes a: "valid_dt a" and b: "valid_dt b"
    and lt: "(year a, month a, day a) < (year b, month b, day b)"
  shows "toordinal a < toordinal b"
proof -
  from b have b1: "1 \<le> day b" "1 \<le> month b" by (simp_all add: valid_dt_def)
  from a have a1: "1 \<le> month a" and ad: "day a \<le> days_in_month (year a) (month a)"
    by (simp_all add: valid_dt_def)
  from lt consider "year a < year b" | "year a = year b" "month a < month b"
    | "year a = year b" "month a = month b" "day a < day b"
    unfolding lex3_less by blast
  then show ?thesis
  proof cases
    case 1
    then have "days_before_year (Suc (year a)) \<le> days_before_year (year b)"
      by (intro dby_mono) simp
    with ord_upper [OF a] dbm_nonneg [of "year b" "month b"] b1 show ?thesis
      by (simp add: toordinal_def [of b])
  next
    case 2
    have "days_before_month (year a) (month a) + int (day a) \<le> days_before_month (year a) (Suc (month a))"
      using dbm_Suc [OF a1, of "year a"] ad by linarith
    also have "\<dots> \<le> days_before_month (year a) (month b)"
      using 2 by (intro dbm_mono) simp
    finally show ?thesis using 2 b1 by (simp add: toordinal_def)
  next
    case 3
    then show ?thesis by (simp add: toordinal_def)
  qed
qed

lemma total_seconds_nonneg:
  assumes a: "valid_dt a" and b: "valid_dt b" and le: "dt_key a \<le> dt_key b"
  shows "0 \<le> total_seconds b a"
proof (cases "(year a, month a, day a) < (year b, month b, day b)")
  case True
  from ord_mono [OF a b True] have "toordinal b - toordinal a \<ge> 1" by simp
  then have "(toordinal b - toordinal a) * 86400 \<ge> 86400" by simp
  moreover from a have "int (hour a) * 3600 + int (minute a) * 60 + int (second a) < 86400"
    by (simp add: valid_dt_def)
  ultimately show ?thesis by (simp add: total_seconds_def)
next
  case False
  with le have eq: "year a = year b" "month a = month b" "day a = day b"
    and t: "(hour a, minute a, second a) \<le> (hour b, minute b, second b)"
    by (auto simp: dt_key_def less_eq_prod_def less_prod_def)
  from eq have o: "toordinal a = toordinal b" by (simp add: toordinal_def)
  from a b have r: "minute a < 60" "second a < 60" "minute b < 60" "second b < 60"
    by (simp_all add: valid_dt_def)
  from t consider "hour a < hour b" | "hour a = hour b" "minute a < minute b"
    | "hour a = hour b" "minute a = minute b" "second a \<le> second b"
    unfolding lex3_le by blast
  then show ?thesis
  proof cases
    case 1 with r o show ?thesis by (simp add: total_seconds_def)
  next
    case 2 with r o show ?thesis by (simp add: total_seconds_def)
  next
    case 3 with r o show ?thesis by (simp add: total_seconds_def)
  qed
qed


lemma react_fold:
  "foldl (react_step cfg names) acc ps =
     (fst acc @ map (\<lambda>pc. real_of_int (elapsed pc))
        (filter (\<lambda>pc. 0 \<le> elapsed pc \<and> within_cutoff cfg (elapsed pc)
                       \<and> the_sender (fst pc) \<notin> names \<and> the_sender (snd pc) \<in> names) ps),
      snd acc @ map (\<lambda>pc. real_of_int (elapsed pc))
        (filter (\<lambda>pc. 0 \<le> elapsed pc \<and> within_cutoff cfg (elapsed pc)
                       \<and> the_sender (fst pc) \<in> names \<and> the_sender (snd pc) \<notin> names) ps))"
proof (induction ps arbitrary: acc)
  case Nil
  show ?case by simp
next
  case (Cons pc ps)
  show ?case
    unfolding foldl_Cons Cons.IH
    by (simp add: react_step_def elapsed_def Let_def)
qed

lemma adjacent_sorted:
  assumes "(p, c) \<in> set (adjacent_pairs ns)"
  shows "dt_key (the_ts p) \<le> dt_key (the_ts c) \<and> p \<in> set ns \<and> c \<in> set ns"
proof -
  let ?k = "\<lambda>x. dt_key (the_ts x)"
  let ?S = "sort_key ?k ns"
  from assms obtain i where i: "i < length ?S" "i < length (tl ?S)" "p = ?S ! i" "c = tl ?S ! i"
    unfolding adjacent_pairs_def in_set_zip by auto
  then have c: "c = ?S ! Suc i" and l: "Suc i < length ?S"
    by (simp_all add: nth_tl)
  have "sorted (map ?k ?S)"
    by simp
  then have "map ?k ?S ! i \<le> map ?k ?S ! Suc i"
    by (rule sorted_nth_mono) (use l in simp_all)
  then have o: "?k p \<le> ?k c"
    using i(1) l i(3) c by (simp only: nth_map)
  have s: "set ?S = set ns"
    by simp
  have "p \<in> set ?S" unfolding i(3) using i(1) by (rule nth_mem)
  moreover have "c \<in> set ?S" unfolding c using l by (rule nth_mem)
  ultimately show ?thesis
    using o s by simp
qed

lemma adjacent_nonneg:
  assumes valid: "\<forall>m \<in> set ns. valid_dt (the_ts m)"
    and adj: "pc \<in> set (adjacent_pairs ns)"
  shows "0 \<le> elapsed pc"
proof -
  from adj adjacent_sorted [of "fst pc" "snd pc" ns]
  have "dt_key (the_ts (fst pc)) \<le> dt_key (the_ts (snd pc))" "fst pc \<in> set ns" "snd pc \<in> set ns"
    by simp_all
  with valid show ?thesis
    unfolding elapsed_def by (intro total_seconds_nonneg) auto
qed

text \<open>
  The statement of C5 about every adjacent pair of two different senders fails: with
  Bob as the only self name, Alice at 09:00 followed by Carol at 09:01 is an adjacent
  pair of the sorted sequence, the senders differ and the 60 seconds elapsed are within
  the cutoff of 21600, yet no sample is recorded, since neither sender is self.
\<close>

theorem sender_switch_counterexample:
  "reactions default_config {''Bob''} [msg_alice_0900, msg_carol_0901] = ([], [])
   \<and> adjacent_pairs [msg_alice_0900, msg_carol_0901] = [(msg_alice_0900, msg_carol_0901)]
   \<and> the_sender msg_alice_0900 \<noteq> the_sender msg_carol_0901
   \<and> elapsed (msg_alice_0900, msg_carol_0901) = 60
   \<and> REACTION_CUTOFF_SEC default_config = Some 21600"
proof -
  have s: "sort_key (\<lambda>m. dt_key (the_ts m)) [msg_alice_0900, msg_carol_0901]
           = [msg_alice_0900, msg_carol_0901]"
    by (simp add: msg_alice_0900_def msg_carol_0901_def the_ts_def dt_key_def
        less_eq_prod_def less_prod_def)
  have e: "elapsed (msg_alice_0900, msg_carol_0901) = 60"
    by (simp add: elapsed_def total_seconds_def toordinal_def msg_alice_0900_def
        msg_carol_0901_def the_ts_def)
  have n: "the_sender msg_alice_0900 = ''Alice''" "the_sender msg_carol_0901 = ''Carol''"
    by (simp_all add: msg_alice_0900_def msg_carol_0901_def the_sender_def)
  have r: "reactions default_config {''Bob''} [msg_alice_0900, msg_carol_0901] = ([], [])"
    unfolding reactions_def non_system_sorted_of_def Let_def s
    using e n by (simp add: react_step_def Let_def elapsed_def)
  have a: "adjacent_pairs [msg_alice_0900, msg_carol_0901] = [(msg_alice_0900, msg_carol_0901)]"
    unfolding adjacent_pairs_def s by simp
  have c: "REACTION_CUTOFF_SEC default_config = Some 21600"
    by (simp add: default_config_def)
  from r a e n c show ?thesis by simp
qed

text \<open>
  C5, amended. The messages carrying valid dates and times, the two sample lists that
  the latency computation returns are exactly the elapsed seconds of the adjacent pairs
  of the timestamp-sorted sequence, in order, that pass the cutoff test and go from a
  sender that is not self to one that is (self reactions), respectively from a self
  sender to one that is not (reactions of the others). The cutoff test of a pair is:
  always passed when the cutoff is None; passed exactly when the elapsed seconds are at
  most \<open>c\<close> when the cutoff is \<open>c\<close>. Accordingly the loop body, on an adjacent pair of
  which exactly one sender is self, appends the elapsed seconds to one of the lists if
  the test is passed and leaves both lists unchanged otherwise. Pairs whose senders are
  both self or both not self never contribute.
\<close>

theorem reaction_cutoff:
  assumes valid: "\<forall>m \<in> set ns. valid_dt (the_ts m)"
  shows "reactions cfg names ns =
           (map (\<lambda>pc. real_of_int (elapsed pc))
              (filter (\<lambda>pc. (case REACTION_CUTOFF_SEC cfg of None \<Rightarrow> True | Some c \<Rightarrow> elapsed pc \<le> c)
                             \<and> the_sender (fst pc) \<notin> names \<and> the_sender (snd pc) \<in> names)
                 (adjacent_pairs ns)),
            map (\<lambda>pc. real_of_int (elapsed pc))
              (filter (\<lambda>pc. (case REACTION_CUTOFF_SEC cfg of None \<Rightarrow> True | Some c \<Rightarrow> elapsed pc \<le> c)
                             \<and> the_sender (fst pc) \<in> names \<and> the_sender (snd pc) \<notin> names)
                 (adjacent_pairs ns)))
       \<and> (\<forall>pc \<in> set (adjacent_pairs ns).
             (the_sender (fst pc) \<in> names) \<noteq> (the_sender (snd pc) \<in> names) \<longrightarrow>
             react_step cfg names (me, them) pc =
               (if (case REACTION_CUTOFF_SEC cfg of None \<Rightarrow> True | Some c \<Rightarrow> elapsed pc \<le> c)
                then (if the_sender (snd pc) \<in> names
                      then (me @ [real_of_int (elapsed pc)], them)
                      else (me, them @ [real_of_int (elapsed pc)]))
                else (me, them)))"
proof -
  let ?C = "\<lambda>pc. (case REACTION_CUTOFF_SEC cfg of None \<Rightarrow> True | Some c \<Rightarrow> elapsed pc \<le> c)"
  let ?M = "\<lambda>pc. the_sender (fst pc) \<notin> names \<and> the_sender (snd pc) \<in> names"
  let ?T = "\<lambda>pc. the_sender (fst pc) \<in> names \<and> the_sender (snd pc) \<notin> names"
  have w: "within_cutoff cfg (elapsed pc) = ?C pc" for pc
    by (simp add: within_cutoff_def)
  have r: "reactions cfg names ns =
      (map (\<lambda>pc. real_of_int (elapsed pc))
        (filter (\<lambda>pc. 0 \<le> elapsed pc \<and> ?C pc \<and> ?M pc) (adjacent_pairs ns)),
       map (\<lambda>pc. real_of_int (elapsed pc))
        (filter (\<lambda>pc. 0 \<le> elapsed pc \<and> ?C pc \<and> ?T pc) (adjacent_pairs ns)))"
    unfolding reactions_def Let_def non_system_sorted_of_def adjacent_pairs_def [symmetric]
      react_fold w
    by simp
  have f1: "filter (\<lambda>pc. 0 \<le> elapsed pc \<and> ?C pc \<and> ?M pc) (adjacent_pairs ns)
            = filter (\<lambda>pc. ?C pc \<and> ?M pc) (adjacent_pairs ns)"
    by (rule filter_cong) (use adjacent_nonneg [OF valid] in auto)
  have f2: "filter (\<lambda>pc. 0 \<le> elapsed pc \<and> ?C pc \<and> ?T pc) (adjacent_pairs ns)
            = filter (\<lambda>pc. ?C pc \<and> ?T pc) (adjacent_pairs ns)"
    by (rule filter_cong) (use adjacent_nonneg [OF valid] in auto)
  have a: "reactions cfg names ns =
      (map (\<lambda>pc. real_of_int (elapsed pc)) (filter (\<lambda>pc. ?C pc \<and> ?M pc) (adjacent_pairs ns)),
       map (\<lambda>pc. real_of_int (elapsed pc)) (filter (\<lambda>pc. ?C pc \<and> ?T pc) (adjacent_pairs ns)))"
    unfolding r f1 f2 by (rule refl)
  have b: "react_step cfg names (me, them) pc =
               (if ?C pc
                then (if the_sender (snd pc) \<in> names
                      then (me @ [real_of_int (elapsed pc)], them)
                      else (me, them @ [real_of_int (elapsed pc)]))
                else (me, them))"
    if adj: "pc \<in> set (adjacent_pairs ns)"
      and sw: "(the_sender (fst pc) \<in> names) \<noteq> (the_sender (snd pc) \<in> names)" for pc
  proof -
    from adjacent_nonneg [OF valid adj] have n: "\<not> elapsed pc < 0"
      by simp
    have e: "total_seconds (the_ts (snd pc)) (the_ts (fst pc)) = elapsed pc"
      by (simp add: elapsed_def)
    show ?thesis
      unfolding react_step_def Let_def fst_conv snd_conv e w if_not_P [OF n]
      using sw by auto
  qed
  from a b show ?thesis by blast
qed

theorem reaction_cutoff_witness:
  "reactions default_config {''Bob''} [msg_bob_1500, msg_alice_0900] = ([21600], [])
   \<and> reactions default_config {''Bob''} [msg_alice_0900, msg_bob_150001] = ([], [])
   \<and> reactions (default_config\<lparr>REACTION_CUTOFF_SEC := None\<rparr>) {''Bob''}
        [msg_alice_0900, msg_bob_150001] = ([21601], [])
   \<and> react_step default_config {''Bob''} ([], []) (msg_alice_0900, msg_bob_1500) = ([21600], [])"
proof -
  have v1: "\<forall>m \<in> set [msg_bob_1500, msg_alice_0900]. valid_dt (the_ts m)"
    by (simp add: msg_alice_0900_def msg_bob_1500_def valid_dt_def the_ts_def days_in_month_def)
  have v2: "\<forall>m \<in> set [msg_alice_0900, msg_bob_150001]. valid_dt (the_ts m)"
    by (simp add: msg_alice_0900_def msg_bob_150001_def valid_dt_def the_ts_def days_in_month_def)
  have a1: "adjacent_pairs [msg_bob_1500, msg_alice_0900] = [(msg_alice_0900, msg_bob_1500)]"
    by (simp add: adjacent_pairs_def msg_alice_0900_def msg_bob_1500_def the_ts_def dt_key_def
        less_eq_prod_def less_prod_def)
  have a2: "adjacent_pairs [msg_alice_0900, msg_bob_150001] = [(msg_alice_0900, msg_bob_150001)]"
    by (simp add: adjacent_pairs_def msg_alice_0900_def msg_bob_150001_def the_ts_def dt_key_def
        less_eq_prod_def less_prod_def)
  have e1: "elapsed (msg_alice_0900, msg_bob_1500) = 21600"
    by (simp add: elapsed_def total_seconds_def toordinal_def msg_alice_0900_def msg_bob_1500_def the_ts_def)
  have e2: "elapsed (msg_alice_0900, msg_bob_150001) = 21601"
    by (simp add: elapsed_def total_seconds_def toordinal_def msg_alice_0900_def msg_bob_150001_def the_ts_def)
  have b: "the_sender msg_bob_1500 = ''Bob''" "the_sender msg_bob_150001 = ''Bob''"
    "the_sender msg_alice_0900 = ''Alice''"
    by (simp_all add: msg_bob_1500_def msg_bob_150001_def msg_alice_0900_def the_sender_def)
  have c: "REACTION_CUTOFF_SEC default_config = Some 21600"
    by (simp add: default_config_def)
  from reaction_cutoff [OF v1, of default_config "{''Bob''}" "[]" "[]"]
  have r1: "reactions default_config {''Bob''} [msg_bob_1500, msg_alice_0900] = ([21600], [])"
    and r4: "react_step default_config {''Bob''} ([], []) (msg_alice_0900, msg_bob_1500) = ([21600], [])"
    unfolding a1 by (simp_all add: e1 b c)
  from reaction_cutoff [OF v2, of default_config "{''Bob''}" "[]" "[]"]
  have r2: "reactions default_config {''Bob''} [msg_alice_0900, msg_bob_150001] = ([], [])"
    unfolding a2 by (simp add: e2 b c)
  from reaction_cutoff [OF v2, of "default_config\<lparr>REACTION_CUTOFF_SEC := None\<rparr>" "{''Bob''}" "[]" "[]"]
  have r3: "reactions (default_config\<lparr>REACTION_CUTOFF_SEC := None\<rparr>) {''Bob''}
        [msg_alice_0900, msg_bob_150001] = ([21601], [])"
    unfolding a2 by (simp add: e2 b)
  from r1 r2 r3 r4 show ?thesis by simp
qed

section \<open>Self inference\<close>














section \<open>System notices in the statistics\<close>

lemma non_system_authored: "non_system_of (authored_only msgs) = non_system_of msgs"
  unfolding non_system_of_def authored_only_def filter_filter
  by (rule filter_cong) (auto simp: qualifies_def)

lemma stats_total:
  "stats_for_messages cfg msgs names lbl = Inr r \<Longrightarrow> total_msgs r = length (non_system_of msgs)"
  unfolding stats_for_messages_def Let_def
  by (auto split: if_splits)

lemma stats_authored_fields:
  "map_sum id strip_span (stats_for_messages cfg (authored_only msgs) names lbl)
   = map_sum id strip_span (stats_for_messages cfg msgs names lbl)"
  unfolding stats_for_messages_def Let_def non_system_authored strip_span_def
  by simp

lemma stats_authored_all:
  "non_system_of msgs \<noteq> [] \<Longrightarrow>
   stats_for_messages cfg (authored_only msgs) names lbl = stats_for_messages cfg msgs names lbl"
  unfolding stats_for_messages_def Let_def non_system_authored
  by simp


text \<open>
  The statement of C3 that a system notice is counted in the reported total message
  volume fails: for Alice's message followed by a system notice the reported
  \<open>total_msgs\<close> is 1, the same as for Alice's message alone.
\<close>

theorem system_not_counted_counterexample:
  "map_sum id total_msgs
     (stats_for_messages default_config [msg_alice_0900, notice_1000] {} ''TOTAL'') = Inr 1
   \<and> map_sum id total_msgs
     (stats_for_messages default_config [msg_alice_0900] {} ''TOTAL'') = Inr 1"
proof -
  have t: "\<forall>m \<in> set [msg_alice_0900, notice_1000]. ts m \<noteq> None"
    by (simp add: msg_alice_0900_def notice_1000_def)
  have t': "\<forall>m \<in> set [msg_alice_0900]. ts m \<noteq> None"
    by (simp add: msg_alice_0900_def)
  have n: "non_system_of [msg_alice_0900, notice_1000] = [msg_alice_0900]"
    by (simp add: non_system_of_def qualifies_def msg_alice_0900_def notice_1000_def)
  have n': "non_system_of [msg_alice_0900] = [msg_alice_0900]"
    by (simp add: non_system_of_def qualifies_def msg_alice_0900_def)
  from non_system_resolved [OF t, of default_config "{}" "''TOTAL''"] obtain r where
    r: "stats_for_messages default_config [msg_alice_0900, notice_1000] {} ''TOTAL'' = Inr r"
    by blast
  from non_system_resolved [OF t', of default_config "{}" "''TOTAL''"] obtain r' where
    r': "stats_for_messages default_config [msg_alice_0900] {} ''TOTAL'' = Inr r'"
    by blast
  from stats_total [OF r] n have "total_msgs r = 1" by simp
  moreover from stats_total [OF r'] n' have "total_msgs r' = 1" by simp
  ultimately show ?thesis by (simp add: r r')
qed

text \<open>
  C3, amended. For every message sequence whose messages carry a timestamp, removing
  the system notices changes no field of the result other than \<open>first_ts\<close>, \<open>last_ts\<close>
  and \<open>span_sec\<close>: word frequencies, latencies, per-sender counts, the hourly
  histogram and the counts are those of the authored messages alone. The reported
  \<open>total_msgs\<close> is the number of qualifying messages (not a system notice, sender not
  empty), so a system notice is not counted in it. When there is at least one qualifying
  message the whole result is unchanged; system notices can only supply the time span
  when no message qualifies.
\<close>

theorem system_excluded:
  assumes "\<forall>m \<in> set msgs. ts m \<noteq> None"
  shows "\<exists>r r'. stats_for_messages cfg msgs names lbl = Inr r
          \<and> stats_for_messages cfg (authored_only msgs) names lbl = Inr r'
          \<and> strip_span r = strip_span r'
          \<and> total_msgs r = length (non_system_of msgs)
          \<and> (non_system_of msgs \<noteq> [] \<longrightarrow> r = r')"
proof -
  from non_system_resolved [OF assms, of cfg names lbl] obtain r where
    r: "stats_for_messages cfg msgs names lbl = Inr r" by blast
  have "\<forall>m \<in> set (authored_only msgs). ts m \<noteq> None"
    using assms by (simp add: authored_only_def)
  from non_system_resolved [OF this, of cfg names lbl] obtain r' where
    r': "stats_for_messages cfg (authored_only msgs) names lbl = Inr r'" by blast
  from stats_authored_fields [of cfg msgs names lbl] have s: "strip_span r = strip_span r'"
    by (simp add: r r')
  have e: "r = r'" if "non_system_of msgs \<noteq> []"
    using stats_authored_all [OF that, of cfg names lbl] by (simp add: r r')
  from r r' s stats_total [OF r] e show ?thesis by blast
qed

theorem system_excluded_witness:
  "\<exists>r. stats_for_messages default_config [msg_alice_0900, notice_1000, msg_bob_1500] {} ''TOTAL'' = Inr r
      \<and> stats_for_messages default_config [msg_alice_0900, msg_bob_1500] {} ''TOTAL'' = Inr r
      \<and> total_msgs r = 2"
proof -
  have t: "\<forall>m \<in> set [msg_alice_0900, notice_1000, msg_bob_1500]. ts m \<noteq> None"
    by (simp add: msg_alice_0900_def notice_1000_def msg_bob_1500_def)
  have a: "authored_only [msg_alice_0900, notice_1000, msg_bob_1500] = [msg_alice_0900, msg_bob_1500]"
    by (simp add: authored_only_def msg_alice_0900_def notice_1000_def msg_bob_1500_def)
  have n: "non_system_of [msg_alice_0900, notice_1000, msg_bob_1500] = [msg_alice_0900, msg_bob_1500]"
    by (simp add: non_system_of_def qualifies_def msg_alice_0900_def notice_1000_def msg_bob_1500_def)
  from system_excluded [OF t, of default_config "{}" "''TOTAL''"] show ?thesis
    unfolding a n by auto
qed

section \<open>The date and time normalizer\<close>

lemma strptime_found:
  "strptime s fmt = (case found_dict s fmt of None \<Rightarrow> None | Some g \<Rightarrow> convert_fields g)"
  by (simp add: strptime_def found_dict_def split: option.splits list.splits)

lemma first_parse_None:
  "first_parse sp s fmts = None \<longleftrightarrow> (\<forall>f \<in> set fmts. sp s f = None)"
  by (induction fmts) (auto split: option.splits)

lemma first_parse_Some:
  "first_parse sp s fmts = Some x \<Longrightarrow>
   \<exists>i < length fmts. sp s (fmts ! i) = Some x \<and> (\<forall>j < i. sp s (fmts ! j) = None)"
proof (induction fmts)
  case Nil
  then show ?case by simp
next
  case (Cons f fmts)
  show ?case
  proof (cases "sp s f")
    case (Some d)
    with Cons.prems have "d = x" by simp
    with Some have "sp s ((f # fmts) ! 0) = Some x \<and> (\<forall>j < 0. sp s ((f # fmts) ! j) = None)"
      by simp
    then show ?thesis by blast
  next
    case None
    with Cons.prems have "first_parse sp s fmts = Some x" by simp
    from Cons.IH [OF this] obtain i where
      i: "i < length fmts" "sp s (fmts ! i) = Some x" "\<forall>j < i. sp s (fmts ! j) = None"
      by blast
    have "\<forall>j < Suc i. sp s ((f # fmts) ! j) = None"
    proof (intro allI impI)
      fix j assume "j < Suc i"
      then show "sp s ((f # fmts) ! j) = None"
        using None i(3) by (cases j) simp_all
    qed
    with i(1,2) have "Suc i < length (f # fmts) \<and> sp s ((f # fmts) ! Suc i) = Some x
        \<and> (\<forall>j < Suc i. sp s ((f # fmts) ! j) = None)"
      by simp
    then show ?thesis by blast
  qed
qed

lemma twins:
  "\<forall>f \<in> set DT_FORMATS. month_first f \<longrightarrow>
     swap_day_month f \<in> set (takeWhile (\<lambda>g. g \<noteq> f) DT_FORMATS)"
  by code_simp

lemma day_first_block:
  "list_all (\<lambda>f. day_first f \<and> \<not> twelve_hour f) (take 12 DT_FORMATS)
   \<and> list_all (\<lambda>f. \<not> day_first f \<or> twelve_hour f) (drop 12 DT_FORMATS)"
  by code_simp

lemma convert_010223_0900:
  "convert_fields [(''M'', ''00''), (''H'', ''09''), (''y'', ''23''), (''m'', ''02''), (''d'', ''01'')]
   = Some \<lparr>year = 2023, month = 2, day = 1, hour = 9, minute = 0, second = 0\<rparr>"
  by (simp add: convert_fields_def grp_def to_nat_def is_digit_def days_in_month_def is_leap_def
      Let_def lower_ascii_def)

lemma found_010223_0900:
  "found_dict ''01/02/23 09:00'' ''%d/%m/%y %H:%M''
   = Some [(''M'', ''00''), (''H'', ''09''), (''y'', ''23''), (''m'', ''02''), (''d'', ''01'')]"
  by code_simp

lemma normalized_010223_0900: "normalized ''01/02/23'' ''09:00'' = ''01/02/23 09:00''"
  by code_simp

lemma parse_010223_0900:
  "try_parse_dt strptime ''01/02/23'' ''09:00''
     = Some \<lparr>year = 2023, month = 2, day = 1, hour = 9, minute = 0, second = 0\<rparr>"
  unfolding try_parse_dt_def normalized_def [symmetric] normalized_010223_0900 DT_FORMATS_def
  by (simp add: strptime_found found_010223_0900 convert_010223_0900)


lemma found_123123_2105:
  "map (found_dict ''12/31/23 21:05'') (take 13 DT_FORMATS)
   = [None, None, None, None, None, None, None, None, None, None, None, None,
      Some [(''M'', ''05''), (''H'', ''21''), (''y'', ''23''), (''d'', ''31''), (''m'', ''12'')]]"
  by code_simp

lemma convert_123123_2105:
  "convert_fields [(''M'', ''05''), (''H'', ''21''), (''y'', ''23''), (''d'', ''31''), (''m'', ''12'')]
   = Some \<lparr>year = 2023, month = 12, day = 31, hour = 21, minute = 5, second = 0\<rparr>"
  by (simp add: convert_fields_def grp_def to_nat_def is_digit_def days_in_month_def is_leap_def
      Let_def lower_ascii_def)

lemma normalized_123123_2105: "normalized ''12/31/23'' ''21:05'' = ''12/31/23 21:05''"
  by code_simp

lemma parse_123123_2105:
  "try_parse_dt strptime ''12/31/23'' ''21:05''
     = Some \<lparr>year = 2023, month = 12, day = 31, hour = 21, minute = 5, second = 0\<rparr>"
proof -
  have f: "map (strptime ''12/31/23 21:05'') (take 13 DT_FORMATS)
    = [None, None, None, None, None, None, None, None, None, None, None, None,
      Some \<lparr>year = 2023, month = 12, day = 31, hour = 21, minute = 5, second = 0\<rparr>]"
  proof -
    have "map (strptime ''12/31/23 21:05'') (take 13 DT_FORMATS)
      = map (\<lambda>r. case r of None \<Rightarrow> None | Some g \<Rightarrow> convert_fields g)
          (map (found_dict ''12/31/23 21:05'') (take 13 DT_FORMATS))"
      by (simp add: strptime_found comp_def)
    then show ?thesis
      unfolding found_123123_2105 by (simp add: convert_123123_2105)
  qed
  from f have g: "first_parse strptime ''12/31/23 21:05'' (take 13 DT_FORMATS @ drop 13 DT_FORMATS)
      = Some \<lparr>year = 2023, month = 12, day = 31, hour = 21, minute = 5, second = 0\<rparr>"
    by (simp add: DT_FORMATS_def)
  show ?thesis
    unfolding try_parse_dt_def normalized_def [symmetric] normalized_123123_2105
    using g by (simp only: append_take_drop_id)
qed

text \<open>
  The statement of C8 that all day-first templates precede the month-first ones fails
  on the list of the source: the template at index 12 is month-first
  (\<^verbatim>\<open>%m/%d/%y %H:%M\<close>) and the template at index 16 is day-first
  (\<^verbatim>\<open>%d/%m/%y %I:%M %p\<close>).
\<close>

theorem day_first_order_counterexample:
  "month_first (DT_FORMATS ! 12) \<and> day_first (DT_FORMATS ! 16) \<and> (12::nat) < 16"
  by (simp add: DT_FORMATS_def month_first_def day_first_def)

text \<open>
  C8, amended. For every library parser \<open>sp\<close> (None standing for ValueError),
  \<open>try_parse_dt\<close> returns None exactly when no template of the list parses the
  normalized string, and otherwise the result of the first template that does: no
  earlier template parses. It never fails. Every month-first template is preceded in
  the list by the day-first template that differs from it only in the order of day and
  month; the first twelve templates are day-first 24-hour templates and no later
  template is (so the day-first 24-hour templates precede every month-first one, while
  the day-first 12-hour templates do not). With the model of the library, the date
  01/02/23 with the time 09:00 is read as day 1, month 2.
\<close>

theorem try_parse_dt_first_match:
  "(try_parse_dt sp d t = None \<longleftrightarrow> (\<forall>f \<in> set DT_FORMATS. sp (normalized d t) f = None))
   \<and> (\<forall>x. try_parse_dt sp d t = Some x \<longrightarrow>
         (\<exists>i < length DT_FORMATS. sp (normalized d t) (DT_FORMATS ! i) = Some x
             \<and> (\<forall>j < i. sp (normalized d t) (DT_FORMATS ! j) = None)))
   \<and> (\<forall>f \<in> set DT_FORMATS. month_first f \<longrightarrow>
         swap_day_month f \<in> set (takeWhile (\<lambda>g. g \<noteq> f) DT_FORMATS))
   \<and> list_all (\<lambda>f. day_first f \<and> \<not> twelve_hour f) (take 12 DT_FORMATS)
   \<and> list_all (\<lambda>f. \<not> day_first f \<or> twelve_hour f) (drop 12 DT_FORMATS)
   \<and> try_parse_dt strptime ''01/02/23'' ''09:00''
       = Some \<lparr>year = 2023, month = 2, day = 1, hour = 9, minute = 0, second = 0\<rparr>"
proof (intro conjI)
  show "try_parse_dt sp d t = None \<longleftrightarrow> (\<forall>f \<in> set DT_FORMATS. sp (normalized d t) f = None)"
    unfolding try_parse_dt_def normalized_def by (rule first_parse_None)
  show "\<forall>x. try_parse_dt sp d t = Some x \<longrightarrow>
         (\<exists>i < length DT_FORMATS. sp (normalized d t) (DT_FORMATS ! i) = Some x
             \<and> (\<forall>j < i. sp (normalized d t) (DT_FORMATS ! j) = None))"
    unfolding try_parse_dt_def normalized_def using first_parse_Some by blast
  show "\<forall>f \<in> set DT_FORMATS. month_first f \<longrightarrow>
         swap_day_month f \<in> set (takeWhile (\<lambda>g. g \<noteq> f) DT_FORMATS)"
    by (rule twins)
  show "list_all (\<lambda>f. day_first f \<and> \<not> twelve_hour f) (take 12 DT_FORMATS)"
    using day_first_block by (rule conjunct1)
  show "list_all (\<lambda>f. \<not> day_first f \<or> twelve_hour f) (drop 12 DT_FORMATS)"
    using day_first_block by (rule conjunct2)
  show "try_parse_dt strptime ''01/02/23'' ''09:00''
       = Some \<lparr>year = 2023, month = 2, day = 1, hour = 9, minute = 0, second = 0\<rparr>"
    by (rule parse_010223_0900)
qed

theorem try_parse_dt_first_match_witness:
  "try_parse_dt strptime ''12/31/23'' ''21:05''
     = Some \<lparr>year = 2023, month = 12, day = 31, hour = 21, minute = 5, second = 0\<rparr>
   \<and> (\<exists>i. i < length DT_FORMATS
          \<and> strptime (normalized ''12/31/23'' ''21:05'') (DT_FORMATS ! i)
              = Some \<lparr>year = 2023, month = 12, day = 31, hour = 21, minute = 5, second = 0\<rparr>)
   \<and> swap_day_month ''%m/%d/%y %H:%M'' \<in> set (takeWhile (\<lambda>g. g \<noteq> ''%m/%d/%y %H:%M'') DT_FORMATS)"
proof -
  note p = parse_123123_2105
  have m2: "''%m/%d/%y %H:%M'' \<in> set DT_FORMATS" "month_first ''%m/%d/%y %H:%M''"
    by (simp_all add: DT_FORMATS_def month_first_def)
  from try_parse_dt_first_match [of strptime "''12/31/23''" "''21:05''"] p
  have f: "\<exists>i. i < length DT_FORMATS
          \<and> strptime (normalized ''12/31/23'' ''21:05'') (DT_FORMATS ! i)
              = Some \<lparr>year = 2023, month = 12, day = 31, hour = 21, minute = 5, second = 0\<rparr>"
    by blast
  from try_parse_dt_first_match [of strptime "''12/31/23''" "''21:05''"] m2
  have s: "swap_day_month ''%m/%d/%y %H:%M'' \<in> set (takeWhile (\<lambda>g. g \<noteq> ''%m/%d/%y %H:%M'') DT_FORMATS)"
    by blast
  from p f s show ?thesis by simp
qed

section \<open>The line after a bracket-only timestamp\<close>

lemma reps_hd:
  "lo \<le> length (takeWhile p s) \<Longrightarrow> \<exists>rest. reps p lo None s = dropWhile p s # rest"
proof (induction s arbitrary: lo)
  case Nil
  then show ?case by simp
next
  case (Cons x xs)
  show ?case
  proof (cases "p x")
    case True
    with Cons.prems have "lo - 1 \<le> length (takeWhile p xs)" by simp
    from Cons.IH [OF this] obtain rest where "reps p (lo - 1) None xs = dropWhile p xs # rest"
      by blast
    with True show ?thesis by simp
  next
    case False
    with Cons.prems show ?thesis by simp
  qed
qed

lemma reps_concat:
  assumes "\<And>r. r \<noteq> [] \<Longrightarrow> p (hd r) \<Longrightarrow> K r = []"
  shows "concat (map K (reps p lo None s))
         = (if lo \<le> length (takeWhile p s) then K (dropWhile p s) else [])"
proof (induction s arbitrary: lo)
  case Nil
  show ?case by simp
next
  case (Cons x xs)
  show ?case
  proof (cases "p x")
    case True
    then have "K (x # xs) = []" using assms [of "x # xs"] by simp
    with True show ?thesis
      by (simp add: Cons.IH) (auto simp: le_diff_conv)
  next
    case False
    then show ?thesis by simp
  qed
qed

lemma reps_set: "r \<in> set (reps p lo hi s) \<Longrightarrow> set r \<subseteq> set s"
  by (induction p lo hi s rule: reps.induct) (auto split: if_splits)

lemma ms_text_eos:
  assumes "CHR 0x0A \<notin> set r"
  shows "ms (Seq (Grp ''text'' (Rep 0 None not_newline)) Eos) r g = [([], (''text'', r) # g)]"
proof -
  let ?K = "\<lambda>r'. ms Eos r' ((''text'', take (length r - length r') r) # g)"
  have k: "?K r' = []" if "r' \<noteq> []" "not_newline (hd r')" for r'
    using that by (cases r') (auto simp: not_newline_def)
  have d: "dropWhile not_newline r = []" "takeWhile not_newline r = r"
    using assms by (auto simp: not_newline_def)
  have "ms (Seq (Grp ''text'' (Rep 0 None not_newline)) Eos) r g
        = concat (map ?K (reps not_newline 0 None r))"
    by (simp add: comp_def)
  also have "\<dots> = ?K (dropWhile not_newline r)"
    using reps_concat [of not_newline ?K 0 r, OF k] by simp
  finally show ?thesis by (simp add: d)
qed

lemma ms_space_text_eos:
  assumes "CHR 0x0A \<notin> set post"
  shows "\<exists>rest. ms (Seq (Rep 0 None is_space) (Seq (Grp ''text'' (Rep 0 None not_newline)) Eos)) post g
         = ([], (''text'', dropWhile is_space post) # g) # rest"
proof -
  let ?T = "Seq (Grp ''text'' (Rep 0 None not_newline)) Eos"
  have e: "ms ?T r g = [([], (''text'', r) # g)]" if "r \<in> set (reps is_space 0 None post)" for r
    using reps_set [OF that] assms by (intro ms_text_eos) auto
  have "ms (Seq (Rep 0 None is_space) ?T) post g
        = concat (map (\<lambda>r. ms ?T r g) (reps is_space 0 None post))"
    by (simp add: comp_def)
  also have "\<dots> = concat (map (\<lambda>r. [([], (''text'', r) # g)]) (reps is_space 0 None post))"
    using e by (intro arg_cong [where f = concat] map_cong) auto
  also have "\<dots> = map (\<lambda>r. ([], (''text'', r) # g)) (reps is_space 0 None post)"
    by (induction "reps is_space 0 None post") auto
  finally have m: "ms (Seq (Rep 0 None is_space) ?T) post g
        = map (\<lambda>r. ([], (''text'', r) # g)) (reps is_space 0 None post)" .
  from reps_hd [of 0 is_space post] obtain rest where
    "reps is_space 0 None post = dropWhile is_space post # rest" by auto
  with m show ?thesis by simp
qed

lemma ms_lit_seq: "ms (Seq (Lit c) b) (c # post) g = ms b post g"
  by simp

lemma sender_text_seq:
  "sender_text_rx = Seq (Grp ''sender'' (Rep 1 None not_colon))
      (Seq (Lit CHR '':'') (Seq (Rep 0 None is_space) (Seq (Grp ''text'' (Rep 0 None not_newline)) Eos)))"
  by (simp add: sender_text_rx_def)

lemma ms_sender_text:
  assumes nl: "CHR 0x0A \<notin> set s"
  shows "(takeWhile not_colon s \<noteq> [] \<and> dropWhile not_colon s \<noteq> [] \<longrightarrow>
           (\<exists>rest. ms sender_text_rx s g
              = ([], (''text'', dropWhile is_space (tl (dropWhile not_colon s)))
                      # (''sender'', takeWhile not_colon s) # g) # rest))
       \<and> (takeWhile not_colon s = [] \<or> dropWhile not_colon s = [] \<longrightarrow> ms sender_text_rx s g = [])"
proof -
  let ?R = "Seq (Lit CHR '':'') (Seq (Rep 0 None is_space) (Seq (Grp ''text'' (Rep 0 None not_newline)) Eos))"
  let ?K = "\<lambda>r. ms ?R r ((''sender'', take (length s - length r) s) # g)"
  have k: "?K r = []" if "r \<noteq> []" "not_colon (hd r)" for r
    using that by (cases r) (auto simp: not_colon_def)
  have m: "ms sender_text_rx s g = concat (map ?K (reps not_colon 1 None s))"
    unfolding sender_text_seq by (simp add: comp_def)
  have c: "ms sender_text_rx s g
       = (if 1 \<le> length (takeWhile not_colon s) then ?K (dropWhile not_colon s) else [])"
    unfolding m using reps_concat [of not_colon ?K 1 s, OF k] by simp
  have t: "take (length s - length (dropWhile not_colon s)) s = takeWhile not_colon s"
    by (metis add_diff_cancel_right' append_eq_conv_conj length_append takeWhile_dropWhile_id)
  show ?thesis
  proof (intro conjI impI)
    assume a: "takeWhile not_colon s \<noteq> [] \<and> dropWhile not_colon s \<noteq> []"
    then obtain post where p: "dropWhile not_colon s = CHR '':'' # post"
      by (metis (full_types) hd_dropWhile list.collapse not_colon_def)
    have "set post \<subseteq> set s"
      by (metis p set_dropWhileD set_subset_Cons subset_code(1) subset_trans)
    with nl have "CHR 0x0A \<notin> set post" by auto
    from ms_space_text_eos [OF this, of "(''sender'', takeWhile not_colon s) # g"]
    obtain rest where r: "ms (Seq (Rep 0 None is_space) (Seq (Grp ''text'' (Rep 0 None not_newline)) Eos))
        post ((''sender'', takeWhile not_colon s) # g)
         = ([], (''text'', dropWhile is_space post) # (''sender'', takeWhile not_colon s) # g) # rest"
      by blast
    from a have "1 \<le> length (takeWhile not_colon s)"
      by (cases "takeWhile not_colon s") simp_all
    then have "ms sender_text_rx s g = ?K (dropWhile not_colon s)"
      by (simp add: c)
    also have "\<dots> = ms ?R (dropWhile not_colon s) ((''sender'', takeWhile not_colon s) # g)"
      by (simp only: t)
    also have "\<dots> = ms ?R (CHR '':'' # post) ((''sender'', takeWhile not_colon s) # g)"
      by (simp only: p)
    also have "\<dots> = ([], (''text'', dropWhile is_space post) # (''sender'', takeWhile not_colon s) # g) # rest"
      by (simp only: ms_lit_seq r)
    finally show "\<exists>rest. ms sender_text_rx s g
              = ([], (''text'', dropWhile is_space (tl (dropWhile not_colon s)))
                      # (''sender'', takeWhile not_colon s) # g) # rest"
      by (simp add: p)
  next
    assume "takeWhile not_colon s = [] \<or> dropWhile not_colon s = []"
    then show "ms sender_text_rx s g = []"
    proof
      assume "takeWhile not_colon s = []"
      then show ?thesis by (simp only: c) simp
    next
      assume d: "dropWhile not_colon s = []"
      have "?K [] = []" by simp
      then show ?thesis by (simp only: c d if_cancel)
    qed
  qed
qed


lemma rstrip_nl_id: "CHR 0x0A \<notin> set s \<Longrightarrow> rstrip_nl s = s"
proof -
  assume a: "CHR 0x0A \<notin> set s"
  have "dropWhile (\<lambda>c. c = CHR 0x0A) (rev s) = rev s"
    using a by (cases "rev s") (auto simp: rev_eq_Cons_iff)
  then show ?thesis by (simp add: rstrip_nl_def)
qed

lemma splitlines_from_no_break:
  "l \<in> set (splitlines_from acc s) \<Longrightarrow> \<forall>c \<in> set acc. \<not> is_linebreak c \<Longrightarrow>
   \<forall>c \<in> set l. \<not> is_linebreak c"
proof (induction acc s rule: splitlines_from.induct)
  case (1 acc)
  then show ?case by (simp split: if_splits)
next
  case (2 acc c)
  then show ?case by (simp split: if_splits)
next
  case (3 acc c d cs)
  show ?case
  proof (cases "c = CHR 0x0D \<and> d = CHR 0x0A")
    case True
    with "3.prems" have "l = acc \<or> l \<in> set (splitlines_from [] cs)" by simp
    then show ?thesis
    proof
      assume "l = acc" with "3.prems"(2) show ?thesis by simp
    next
      assume "l \<in> set (splitlines_from [] cs)"
      then show ?thesis by (rule "3.IH"(1) [OF True]) simp
    qed
  next
    case False
    note nf = this
    have e: "splitlines_from acc (c # d # cs)
       = (if is_linebreak c then acc # splitlines_from [] (d # cs)
          else splitlines_from (acc @ [c]) (d # cs))"
      unfolding splitlines_from.simps using nf by (rule if_not_P)
    show ?thesis
    proof (cases "is_linebreak c")
      case True
      with "3.prems"(1) have "l = acc \<or> l \<in> set (splitlines_from [] (d # cs))"
        unfolding e by simp
      then show ?thesis
      proof
        assume "l = acc" with "3.prems"(2) show ?thesis by simp
      next
        assume "l \<in> set (splitlines_from [] (d # cs))"
        then show ?thesis by (rule "3.IH"(2) [OF nf True]) simp
      qed
    next
      case False
      with "3.prems"(1) have m: "l \<in> set (splitlines_from (acc @ [c]) (d # cs))"
        unfolding e by simp
      have a: "\<forall>x \<in> set (acc @ [c]). \<not> is_linebreak x"
      proof
        fix x assume "x \<in> set (acc @ [c])"
        then have "x \<in> set acc \<or> x = c" unfolding set_append by auto
        then show "\<not> is_linebreak x" using False "3.prems"(2) by blast
      qed
      show ?thesis by (rule "3.IH"(3) [OF nf False m a])
    qed
  qed
qed

lemma splitlines_no_newline: "l \<in> set (splitlines s) \<Longrightarrow> CHR 0x0A \<notin> set l"
proof -
  assume "l \<in> set (splitlines s)"
  then have "\<forall>c \<in> set l. \<not> is_linebreak c"
    unfolding splitlines_def by (rule splitlines_from_no_break) simp
  then show ?thesis by (auto simp: is_linebreak_def)
qed

lemma colon_split:
  "(takeWhile not_colon s \<noteq> [] \<and> dropWhile not_colon s \<noteq> [])
   = (CHR '':'' \<in> set s \<and> hd s \<noteq> CHR '':'')"
  by (cases s) (auto simp: not_colon_def dropWhile_eq_Nil_conv)

lemma match_sender_only:
  assumes "CHR 0x0A \<notin> set s"
  shows "rx_match SENDER_ONLY s =
     (if CHR '':'' \<in> set s \<and> hd s \<noteq> CHR '':''
      then Some [(''text'', dropWhile is_space (tl (dropWhile not_colon s))),
                 (''sender'', takeWhile not_colon s)]
      else None)"
proof (cases "takeWhile not_colon s \<noteq> [] \<and> dropWhile not_colon s \<noteq> []")
  case True
  with ms_sender_text [OF assms, of "[]"] obtain rest where
    "ms sender_text_rx s [] = ([], [(''text'', dropWhile is_space (tl (dropWhile not_colon s))),
                 (''sender'', takeWhile not_colon s)]) # rest"
    by blast
  then show ?thesis
    using True unfolding colon_split by (simp add: rx_match_def SENDER_ONLY_def)
next
  case False
  with ms_sender_text [OF assms, of "[]"] have "ms sender_text_rx s [] = []"
    by blast
  then show ?thesis
    using False unfolding colon_split by (simp add: rx_match_def SENDER_ONLY_def)
qed

text \<open>
  The statement of C9 that the line is an authored message if and only if it contains
  a colon fails: with a timestamp pending, the line \<^verbatim>\<open>:) ok\<close> contains a colon and
  becomes a system notice, because the sender before the colon must not be empty.
\<close>

theorem pending_colon_counterexample:
  "step strptime (pending_state dt_20200415_162056) '':) ok''
     = \<lparr>messages = [],
        current = Some \<lparr>ts = Some dt_20200415_162056, sender = None, msg_text = '':) ok'',
                         is_system = True\<rparr>,
        pending_ts = None\<rparr>
   \<and> CHR '':'' \<in> set '':) ok''"
proof -
  have n: "CHR 0x0A \<notin> set '':) ok''" by simp
  have "rx_match SENDER_ONLY '':) ok'' = None"
    unfolding match_sender_only [OF n] by simp
  moreover have "rstrip_nl '':) ok'' = '':) ok''"
    using n by (rule rstrip_nl_id)
  ultimately show ?thesis
    by (simp add: step_def pending_state_def flush_def)
qed

text \<open>
  C9, amended. With a timestamp pending, a line (without line feed, as every line of
  \<open>splitlines\<close> is) opens an authored message if and only if it contains a colon that
  is not its first character. The sender is then the stripped text before the first
  colon and the message text is what follows that colon with its leading white space
  removed. Any other line, also one that starts with a colon, opens a system notice
  whose text is the whole line. In both cases the message open before is flushed and
  the pending timestamp is consumed.
\<close>

theorem pending_line_classification:
  assumes pend: "pending_ts st = Some p" and nl: "CHR 0x0A \<notin> set line"
  shows "step sp st line =
     \<lparr>messages = flush st,
      current = Some (if CHR '':'' \<in> set line \<and> hd line \<noteq> CHR '':''
                      then \<lparr>ts = Some p, sender = Some (strip (takeWhile not_colon line)),
                            msg_text = dropWhile is_space (tl (dropWhile not_colon line)),
                            is_system = False\<rparr>
                      else \<lparr>ts = Some p, sender = None, msg_text = line, is_system = True\<rparr>),
      pending_ts = None\<rparr>
   \<and> (\<forall>l \<in> set (splitlines content). CHR 0x0A \<notin> set l)"
proof
  show "step sp st line =
     \<lparr>messages = flush st,
      current = Some (if CHR '':'' \<in> set line \<and> hd line \<noteq> CHR '':''
                      then \<lparr>ts = Some p, sender = Some (strip (takeWhile not_colon line)),
                            msg_text = dropWhile is_space (tl (dropWhile not_colon line)),
                            is_system = False\<rparr>
                      else \<lparr>ts = Some p, sender = None, msg_text = line, is_system = True\<rparr>),
      pending_ts = None\<rparr>"
    unfolding step_def Let_def rstrip_nl_id [OF nl] pend match_sender_only [OF nl]
    by (simp add: grp_def)
  show "\<forall>l \<in> set (splitlines content). CHR 0x0A \<notin> set l"
    using splitlines_no_newline by blast
qed

theorem pending_line_classification_witness:
  "step strptime (pending_state dt_20200415_162056) ''call at 5:30''
     = \<lparr>messages = [],
        current = Some \<lparr>ts = Some dt_20200415_162056, sender = Some ''call at 5'',
                         msg_text = ''30'', is_system = False\<rparr>,
        pending_ts = None\<rparr>
   \<and> step strptime (pending_state dt_20200415_162056) ''Alice added Bob''
     = \<lparr>messages = [],
        current = Some \<lparr>ts = Some dt_20200415_162056, sender = None,
                         msg_text = ''Alice added Bob'', is_system = True\<rparr>,
        pending_ts = None\<rparr>
   \<and> step strptime (pending_state dt_20200415_162056) '' Bob :   hi  ''
     = \<lparr>messages = [],
        current = Some \<lparr>ts = Some dt_20200415_162056, sender = Some ''Bob'',
                         msg_text = ''hi  '', is_system = False\<rparr>,
        pending_ts = None\<rparr>"
proof -
  have p: "pending_ts (pending_state dt_20200415_162056) = Some dt_20200415_162056"
    by (simp add: pending_state_def)
  have f: "flush (pending_state dt_20200415_162056) = []"
    by (simp add: pending_state_def flush_def)
  have n: "CHR 0x0A \<notin> set ''call at 5:30''" "CHR 0x0A \<notin> set ''Alice added Bob''"
    "CHR 0x0A \<notin> set '' Bob :   hi  ''"
    by simp_all
  from pending_line_classification [OF p n(1), of strptime]
  have a: "step strptime (pending_state dt_20200415_162056) ''call at 5:30''
     = \<lparr>messages = [],
        current = Some \<lparr>ts = Some dt_20200415_162056, sender = Some ''call at 5'',
                         msg_text = ''30'', is_system = False\<rparr>,
        pending_ts = None\<rparr>"
    by (simp add: f strip_def is_space_def not_colon_def)
  from pending_line_classification [OF p n(2), of strptime]
  have b: "step strptime (pending_state dt_20200415_162056) ''Alice added Bob''
     = \<lparr>messages = [],
        current = Some \<lparr>ts = Some dt_20200415_162056, sender = None,
                         msg_text = ''Alice added Bob'', is_system = True\<rparr>,
        pending_ts = None\<rparr>"
    by (simp add: f)
  from pending_line_classification [OF p n(3), of strptime]
  have c: "step strptime (pending_state dt_20200415_162056) '' Bob :   hi  ''
     = \<lparr>messages = [],
        current = Some \<lparr>ts = Some dt_20200415_162056, sender = Some ''Bob'',
                         msg_text = ''hi  '', is_system = False\<rparr>,
        pending_ts = None\<rparr>"
    by (simp add: f strip_def is_space_def not_colon_def)
  from a b c show ?thesis by simp
qed

section \<open>The bracket-only timestamp line\<close>













lemma match_bob_hi:
  "rx_match SENDER_ONLY (rstrip_nl ''Bob: hi'') = Some [(''text'', ''hi''), (''sender'', ''Bob'')]"
  by code_simp















end
